theory Spec2Isabelle
  imports Complex_Main "HOL-Library.Log_Nat"
begin

section \<open>Numbers\<close>

text \<open>
  The program computes with JavaScript numbers, the binary64 values of IEEE 754. A number
  is a finite value, held as the rational it denotes, one of the two infinities, or NaN.
  Every arithmetic operation takes the exact result and rounds it to the nearest binary64
  value, a tie going to the even significand; a result of magnitude \<open>2\<^sup>1\<^sup>0\<^sup>2\<^sup>4\<close> or more after
  rounding is an infinity, and below \<open>2\<^sup>-\<^sup>1\<^sup>0\<^sup>2\<^sup>2\<close> the spacing of the values stays
  \<open>2\<^sup>-\<^sup>1\<^sup>0\<^sup>7\<^sup>4\<close>.

  The two zeros are one value here. The program never divides by a variable and never
  prints the sign of a zero, and a negative zero compares, adds, multiplies and tests as
  the positive one does.
\<close>

datatype number = Num rat | PInf | NInf | NaN

definition ilog2 :: "rat \<Rightarrow> int" where
  \<comment> \<open>the binary exponent of a positive rational: \<open>2\<^sup>e \<le> a < 2\<^sup>e\<^sup>+\<^sup>1\<close>\<close>
  "ilog2 a = (let (p, q) = quotient_of a; d = bitlen p - bitlen q
              in if 2 powi d \<le> a then d else d - 1)"

definition round_half_even :: "rat \<Rightarrow> int" where
  "round_half_even y =
     (let f = \<lfloor>y\<rfloor>; r = y - of_int f
      in if r < 1 / 2 then f else if 1 / 2 < r then f + 1
         else if even f then f else f + 1)"

definition binade :: "rat \<Rightarrow> int" where
  "binade x = max (ilog2 \<bar>x\<bar>) (- 1022)"

definition nearest :: "rat \<Rightarrow> rat" where
  \<comment> \<open>the magnitude, rounded to 53 significant bits\<close>
  "nearest x =
     of_int (round_half_even (\<bar>x\<bar> / 2 powi (binade x - 52))) * 2 powi (binade x - 52)"

definition rnd :: "rat \<Rightarrow> number" where
  "rnd x =
     (if x = 0 then Num 0
      else if 2 ^ 1024 \<le> nearest x then (if 0 < x then PInf else NInf)
      else Num (sgn x * nearest x))"

fun neg :: "number \<Rightarrow> number" where
  "neg (Num x) = Num (- x)"
| "neg PInf = NInf"
| "neg NInf = PInf"
| "neg NaN = NaN"

fun fadd :: "number \<Rightarrow> number \<Rightarrow> number" where
  "fadd (Num x) (Num y) = rnd (x + y)"
| "fadd NaN b = NaN"
| "fadd a NaN = NaN"
| "fadd PInf NInf = NaN"
| "fadd NInf PInf = NaN"
| "fadd PInf b = PInf"
| "fadd a PInf = PInf"
| "fadd NInf b = NInf"
| "fadd a NInf = NInf"

definition fsub :: "number \<Rightarrow> number \<Rightarrow> number" where
  "fsub a b = fadd a (neg b)"

fun fmul :: "number \<Rightarrow> number \<Rightarrow> number" where
  "fmul (Num x) (Num y) = rnd (x * y)"
| "fmul NaN b = NaN"
| "fmul a NaN = NaN"
| "fmul (Num x) b = (if x = 0 then NaN else if 0 < x then b else neg b)"
| "fmul a (Num y) = (if y = 0 then NaN else if 0 < y then a else neg a)"
| "fmul a b = (if a = b then PInf else NInf)"

fun fdiv :: "number \<Rightarrow> number \<Rightarrow> number" where
  \<comment> \<open>a zero divisor is taken for the positive zero; the program divides by constants only\<close>
  "fdiv (Num x) (Num y) =
     (if y = 0 then (if x = 0 then NaN else if 0 < x then PInf else NInf)
      else rnd (x / y))"
| "fdiv NaN b = NaN"
| "fdiv a NaN = NaN"
| "fdiv (Num x) b = Num 0"
| "fdiv a (Num y) = (if 0 \<le> y then a else neg a)"
| "fdiv a b = NaN"

fun num_less :: "number \<Rightarrow> number \<Rightarrow> bool" where
  "num_less (Num x) (Num y) = (x < y)"
| "num_less (Num x) PInf = True"
| "num_less NInf (Num y) = True"
| "num_less NInf PInf = True"
| "num_less a b = False"

fun num_le :: "number \<Rightarrow> number \<Rightarrow> bool" where
  "num_le (Num x) (Num y) = (x \<le> y)"
| "num_le (Num x) PInf = True"
| "num_le NInf (Num y) = True"
| "num_le NInf PInf = True"
| "num_le NInf NInf = True"
| "num_le PInf PInf = True"
| "num_le a b = False"

definition math_max :: "number \<Rightarrow> number \<Rightarrow> number" where
  "math_max a b = (if a = NaN \<or> b = NaN then NaN else if num_less a b then b else a)"

definition math_min :: "number \<Rightarrow> number \<Rightarrow> number" where
  "math_min a b = (if a = NaN \<or> b = NaN then NaN else if num_less b a then b else a)"

fun math_round :: "number \<Rightarrow> number" where
  \<comment> \<open>\<^verbatim>\<open>Math.round\<close>: the nearest integer, a tie going up\<close>
  "math_round (Num x) = Num (of_int \<lfloor>x + 1 / 2\<rfloor>)"
| "math_round a = a"

fun math_floor :: "number \<Rightarrow> number" where
  "math_floor (Num x) = Num (of_int \<lfloor>x\<rfloor>)"
| "math_floor a = a"

fun truthy :: "number \<Rightarrow> bool" where
  \<comment> \<open>a number used as a condition: zero and NaN are falsy\<close>
  "truthy (Num x) = (x \<noteq> 0)"
| "truthy NaN = False"
| "truthy a = True"

definition number_of_bigint :: "int \<Rightarrow> number" where
  \<comment> \<open>\<^verbatim>\<open>Number(n)\<close> for a bigint or a string of digits\<close>
  "number_of_bigint n = rnd (of_int n)"

section \<open>Data\<close>

text \<open>
  The type \<^verbatim>\<open>Flow\<close> is declared in \<^verbatim>\<open>types/types.ts\<close>; the record holds the
  fields that \<^verbatim>\<open>graphinator.ts\<close> reads. The flow rate arrives as an integer and is
  converted with \<^verbatim>\<open>Number\<close>; the consumed deposit percentage may be missing.
\<close>

record flow =
  agreementType :: int
  sender :: string
  receiver :: string
  token :: string
  flowrate :: int
  consumedDepositPercentage :: "number option"

text \<open>The fields of the class \<^verbatim>\<open>Graphinator\<close> that the liquidation logic reads.\<close>

record graphinator =
  depositConsumedPctThreshold :: number
  batchSize :: number
  gasMultiplier :: number
  referenceGasPriceLimit :: number
  fallbackGasPriceLimit :: number
  minGasPriceLimit :: number
  isListed :: bool
  tokenPrices :: "string \<rightharpoonup> number"

section \<open>The gas price ceiling of a flow\<close>

definition refDailyNFR :: number where
  "refDailyNFR = Num (10 ^ 18)"

definition dailyNFR :: "graphinator \<Rightarrow> flow \<Rightarrow> number option" where
  \<comment> \<open>\<^verbatim>\<open>tokenPrice ? Math.round(flowrate * 86400 * tokenPrice) : undefined\<close>\<close>
  "dailyNFR g f =
     (case tokenPrices g (token f) of
        None \<Rightarrow> None
      | Some tokenPrice \<Rightarrow>
          if truthy tokenPrice
          then Some (math_round
                 (fmul (fmul (number_of_bigint (flowrate f)) (Num 86400)) tokenPrice))
          else None)"

definition baseMaxGasPrice :: "graphinator \<Rightarrow> flow \<Rightarrow> number" where
  \<comment> \<open>\<^verbatim>\<open>dailyNFR ? Math.max(min, Math.round(dailyNFR * ref / refDailyNFR)) : fallback\<close>\<close>
  "baseMaxGasPrice g f =
     (case dailyNFR g f of
        None \<Rightarrow> fallbackGasPriceLimit g
      | Some d \<Rightarrow>
          if truthy d
          then math_max (minGasPriceLimit g)
                 (math_round (fdiv (fmul d (referenceGasPriceLimit g)) refDailyNFR))
          else fallbackGasPriceLimit g)"

definition timeMultiplier :: "flow \<Rightarrow> number" where
  "timeMultiplier f =
     (case consumedDepositPercentage f of
        None \<Rightarrow> Num 1
      | Some pct \<Rightarrow>
          if truthy pct \<and> num_less (Num 100) pct
          then (let hoursSinceInsolvent = fdiv (fmul (fsub pct (Num 100)) (Num 4)) (Num 100);
                    daysSinceInsolvent = fdiv hoursSinceInsolvent (Num 24)
                in fadd (Num 1) (math_min daysSinceInsolvent (Num 10)))
          else Num 1)"

definition calculateMaxGasPrice :: "graphinator \<Rightarrow> flow \<Rightarrow> number" where
  "calculateMaxGasPrice g f = math_round (fmul (baseMaxGasPrice g f) (timeMultiplier f))"

section \<open>Effects: the network, the log and exceptions\<close>

text \<open>
  An \<^verbatim>\<open>Error\<close> carries its message. Every call that leaves the process (the data
  fetcher, the JSON-RPC provider, the wallet, the contract bindings) and every log line
  is recorded as an event; the list of events so far is the state that is threaded
  through the program.
\<close>

datatype error = Error string

record tx =
  tx_to :: string
  tx_data :: string
  tx_gasLimit :: number
  tx_gasPrice :: number
  tx_chainId :: int
  tx_nonce :: int

datatype event =
    ResolveAddress string
  | GetSuperTokens bool
  | GetFlowsToLiquidate string
  | GetFeeData
  | EncodeFunctionData string "(int \<times> string \<times> string) list"
  | GetAddress
  | EstimateGas string string
  | GetNetwork
  | GetTransactionCount string
  | SignTransaction tx
  | BroadcastTransaction string
  | WaitReceipt string
  | LogProcessing nat bool
  | LogFound nat
  | LogCurrentGasPrice number
  | LogInRange nat
  | LogSorted
  | LogNoCriticalAccounts string
  | LogDryRun tx
  | LogSuccessful "string option"
  | LogErrorProcessingChunk error

text \<open>
  The collaborators of the class are parameters of the model. Each of them sees the
  events so far, so that it may answer differently, or fail, from one call to the next.
\<close>

record world =
  w_resolveAddress :: "event list \<Rightarrow> string \<Rightarrow> error + string"
  w_getSuperTokens :: "event list \<Rightarrow> bool \<Rightarrow> error + string list"
  w_getFlowsToLiquidate ::
    "event list \<Rightarrow> string \<Rightarrow> number \<Rightarrow> (flow \<Rightarrow> number) \<Rightarrow> error + flow list"
  w_getFeeData :: "event list \<Rightarrow> error + int option"
  w_encodeFunctionData ::
    "event list \<Rightarrow> string \<Rightarrow> (int \<times> string \<times> string) list \<Rightarrow> error + string"
  w_getAddress :: "event list \<Rightarrow> error + string"
  w_estimateGas :: "event list \<Rightarrow> string \<Rightarrow> string \<Rightarrow> error + int"
  w_getNetwork :: "event list \<Rightarrow> error + int"
  w_getTransactionCount :: "event list \<Rightarrow> string \<Rightarrow> error + int"
  w_signTransaction :: "event list \<Rightarrow> tx \<Rightarrow> error + string"
  w_broadcastTransaction :: "event list \<Rightarrow> string \<Rightarrow> error + string"
  w_wait :: "event list \<Rightarrow> string \<Rightarrow> error + string option"
  w_walletAddress :: string
  w_DRY_RUN :: "string option"

datatype 'a outcome = Returned 'a | Thrown error | Hangs

type_synonym 'a prog = "event list \<Rightarrow> 'a outcome \<times> event list"

definition ret :: "'a \<Rightarrow> 'a prog" where
  "ret x h = (Returned x, h)"

definition throw :: "error \<Rightarrow> 'a prog" where
  "throw e h = (Thrown e, h)"

definition hang :: "'a prog" where
  "hang h = (Hangs, h)"

definition bind :: "'a prog \<Rightarrow> ('a \<Rightarrow> 'b prog) \<Rightarrow> 'b prog" where
  "bind m k h =
     (case m h of
        (Returned x, h') \<Rightarrow> k x h'
      | (Thrown e, h') \<Rightarrow> (Thrown e, h')
      | (Hangs, h') \<Rightarrow> (Hangs, h'))"

definition try_catch :: "'a prog \<Rightarrow> (error \<Rightarrow> 'a prog) \<Rightarrow> 'a prog" where
  "try_catch m handler h =
     (case m h of
        (Thrown e, h') \<Rightarrow> handler e h'
      | r \<Rightarrow> r)"

definition emit :: "event \<Rightarrow> unit prog" where
  "emit ev h = (Returned (), h @ [ev])"

definition await :: "event \<Rightarrow> (event list \<Rightarrow> error + 'a) \<Rightarrow> 'a prog" where
  \<comment> \<open>an external call: it is recorded, and it returns or throws\<close>
  "await ev call h =
     (case call h of
        Inl e \<Rightarrow> (Thrown e, h @ [ev])
      | Inr x \<Rightarrow> (Returned x, h @ [ev]))"

fun for_each :: "'a list \<Rightarrow> ('a \<Rightarrow> unit prog) \<Rightarrow> unit prog" where
  "for_each [] body = ret ()"
| "for_each (x # xs) body = bind (body x) (\<lambda>_. for_each xs body)"

section \<open>Strings and arrays\<close>

definition lower_char :: "char \<Rightarrow> char" where
  "lower_char c =
     (let n = (of_char c :: nat) in if 65 \<le> n \<and> n \<le> 90 then char_of (n + 32) else c)"

definition toLowerCase :: "string \<Rightarrow> string" where
  "toLowerCase s = map lower_char s"

definition to_integer :: "rat \<Rightarrow> int" where
  \<comment> \<open>truncation towards zero\<close>
  "to_integer x = (if 0 \<le> x then \<lfloor>x\<rfloor> else \<lceil>x\<rceil>)"

definition relative_index :: "nat \<Rightarrow> number \<Rightarrow> nat" where
  \<comment> \<open>a bound of \<^verbatim>\<open>slice\<close>: truncated, counted from the end when negative, clamped\<close>
  "relative_index len a =
     (case a of
        NaN \<Rightarrow> 0
      | NInf \<Rightarrow> 0
      | PInf \<Rightarrow> len
      | Num x \<Rightarrow>
          (let k = to_integer x
           in if k < 0 then nat (max (int len + k) 0) else min (nat k) len))"

definition slice :: "'a list \<Rightarrow> number \<Rightarrow> number \<Rightarrow> 'a list" where
  \<comment> \<open>\<^verbatim>\<open>Array.prototype.slice\<close> with both bounds given\<close>
  "slice xs start end =
     (let k = relative_index (length xs) start;
          final = relative_index (length xs) end
      in take (final - k) (drop k xs))"

text \<open>
  The loop of \<^verbatim>\<open>_chunkArray\<close> adds \<^verbatim>\<open>size\<close> to the index until the index is no
  longer below the length of the array. Nothing in the source makes the size a positive
  integer, so the loop is a partial function: \<open>None\<close> is a loop that never ends.
\<close>

partial_function (option) chunk_loop ::
  "'a list \<Rightarrow> number \<Rightarrow> number \<Rightarrow> 'a list list \<Rightarrow> 'a list list option" where
  "chunk_loop array sz i chunks =
     (if num_less i (Num (of_nat (length array)))
      then chunk_loop array sz (fadd i sz) (chunks @ [slice array i (fadd i sz)])
      else Some chunks)"

definition chunkArray :: "'a list \<Rightarrow> number \<Rightarrow> 'a list list option" where
  "chunkArray array sz = chunk_loop array sz (Num 0) []"

text \<open>
  \<^verbatim>\<open>Array.prototype.sort\<close> is stable. The comparator says that its first argument goes
  after the second by a result above zero; any other result, NaN too, leaves the two in
  their order. With a comparator that orders the elements consistently every stable sort
  returns the list below; with another comparator the language leaves the order open.
\<close>

fun insert_sorted :: "('a \<Rightarrow> 'a \<Rightarrow> number) \<Rightarrow> 'a \<Rightarrow> 'a list \<Rightarrow> 'a list" where
  "insert_sorted cmp x [] = [x]"
| "insert_sorted cmp x (y # ys) =
     (if num_less (Num 0) (cmp x y) then y # insert_sorted cmp x ys else x # y # ys)"

definition array_sort :: "('a \<Rightarrow> 'a \<Rightarrow> number) \<Rightarrow> 'a list \<Rightarrow> 'a list" where
  "array_sort cmp xs = foldr (insert_sorted cmp) xs []"

section \<open>Submitting one batch\<close>

definition generateBatchLiquidationTxData ::
  "world \<Rightarrow> string \<Rightarrow> flow list \<Rightarrow> (string \<times> string) prog" where
  \<comment> \<open>the result is the pair of \<^verbatim>\<open>data\<close> and \<^verbatim>\<open>to\<close>\<close>
  "generateBatchLiquidationTxData w tok flows =
     (if \<not> list_all (\<lambda>f. token f = tok) flows
      then throw (Error ''flow with wrong token'')
      else
        (let structParams = map (\<lambda>f. (agreementType f, sender f, receiver f)) flows in
         bind (await (EncodeFunctionData tok structParams)
                 (\<lambda>h. w_encodeFunctionData w h tok structParams)) (\<lambda>transactionData.
         bind (await GetAddress (w_getAddress w)) (\<lambda>transactionTo.
         ret (transactionData, transactionTo)))))"

definition estimateGasLimit :: "world \<Rightarrow> graphinator \<Rightarrow> string \<times> string \<Rightarrow> number prog" where
  "estimateGasLimit w g txData =
     bind (await (EstimateGas (snd txData) (fst txData))
             (\<lambda>h. w_estimateGas w h (snd txData) (fst txData))) (\<lambda>gasEstimate.
     ret (math_floor (fmul (number_of_bigint gasEstimate) (gasMultiplier g))))"

definition dry_run :: "world \<Rightarrow> bool" where
  \<comment> \<open>\<^verbatim>\<open>process.env.DRY_RUN\<close> as a condition: set, and not the empty string\<close>
  "dry_run w = (case w_DRY_RUN w of None \<Rightarrow> False | Some s \<Rightarrow> s \<noteq> [])"

definition submit :: "world \<Rightarrow> graphinator \<Rightarrow> string \<Rightarrow> flow list \<Rightarrow> number \<Rightarrow> unit prog" where
  \<comment> \<open>the body of the \<^verbatim>\<open>try\<close> block of \<^verbatim>\<open>batchLiquidateFlows\<close>\<close>
  "submit w g tok flows maxGasPrice =
     bind (generateBatchLiquidationTxData w tok flows) (\<lambda>txData.
     bind (estimateGasLimit w g txData) (\<lambda>gasLimit.
     bind (await GetNetwork (w_getNetwork w)) (\<lambda>chain.
     bind (await (GetTransactionCount (w_walletAddress w))
             (\<lambda>h. w_getTransactionCount w h (w_walletAddress w))) (\<lambda>count.
     (let t = \<lparr>tx_to = snd txData, tx_data = fst txData, tx_gasLimit = gasLimit,
               tx_gasPrice = maxGasPrice, tx_chainId = chain, tx_nonce = count\<rparr>
      in if dry_run w
         then emit (LogDryRun t)
         else
           bind (await (SignTransaction t) (\<lambda>h. w_signTransaction w h t)) (\<lambda>signedTx.
           bind (await (BroadcastTransaction signedTx)
                   (\<lambda>h. w_broadcastTransaction w h signedTx)) (\<lambda>transactionResponse.
           bind (await (WaitReceipt transactionResponse)
                   (\<lambda>h. w_wait w h transactionResponse)) (\<lambda>receipt.
           emit (LogSuccessful receipt)))))))))"

definition batchLiquidateFlows ::
  "world \<Rightarrow> graphinator \<Rightarrow> string \<Rightarrow> flow list \<Rightarrow> number \<Rightarrow> unit prog" where
  "batchLiquidateFlows w g tok flows maxGasPrice =
     try_catch (submit w g tok flows maxGasPrice)
       (\<lambda>err. emit (LogErrorProcessingChunk err))"

section \<open>The run over the tokens\<close>

definition number_of_gasPrice :: "int option \<Rightarrow> number" where
  \<comment> \<open>\<^verbatim>\<open>Number(feeData.gasPrice)\<close>: the field is a bigint or null, and null gives 0\<close>
  "number_of_gasPrice p = (case p of None \<Rightarrow> Num 0 | Some n \<Rightarrow> number_of_bigint n)"

definition flowsWorthLiquidating :: "graphinator \<Rightarrow> flow list \<Rightarrow> number \<Rightarrow> flow list" where
  \<comment> \<open>the filter, then the sort by descending ceiling\<close>
  "flowsWorthLiquidating g flowsToLiquidate currentGasPrice =
     array_sort (\<lambda>a b. fsub (calculateMaxGasPrice g b) (calculateMaxGasPrice g a))
       (filter (\<lambda>f. num_le currentGasPrice (calculateMaxGasPrice g f)) flowsToLiquidate)"

definition select :: "graphinator \<Rightarrow> flow list \<Rightarrow> number \<Rightarrow> flow list list option" where
  "select g flowsToLiquidate currentGasPrice =
     chunkArray (flowsWorthLiquidating g flowsToLiquidate currentGasPrice) (batchSize g)"

definition liquidateChunks ::
  "world \<Rightarrow> graphinator \<Rightarrow> string \<Rightarrow> flow list \<Rightarrow> number \<Rightarrow> unit prog" where
  \<comment> \<open>from the filter to the loop over the chunks, once the fee is known\<close>
  "liquidateChunks w g tokenAddr flowsToLiquidate currentGasPrice =
     bind (emit (LogCurrentGasPrice (fdiv currentGasPrice (Num (10 ^ 9))))) (\<lambda>_.
     bind (emit (LogInRange
             (length (flowsWorthLiquidating g flowsToLiquidate currentGasPrice)))) (\<lambda>_.
     bind (emit LogSorted) (\<lambda>_.
     (case select g flowsToLiquidate currentGasPrice of
        None \<Rightarrow> hang
      | Some chunks \<Rightarrow>
          for_each chunks (\<lambda>chunk.
            batchLiquidateFlows w g tokenAddr chunk
              (math_floor (fmul currentGasPrice (rnd (12 / 10)))))))))"

definition liquidateFlows ::
  "world \<Rightarrow> graphinator \<Rightarrow> string \<Rightarrow> flow list \<Rightarrow> unit prog" where
  \<comment> \<open>the branch of the loop body for a token that has flows to liquidate\<close>
  "liquidateFlows w g tokenAddr flowsToLiquidate =
     bind (emit (LogFound (length flowsToLiquidate))) (\<lambda>_.
     bind (await GetFeeData (w_getFeeData w)) (\<lambda>gasPrice.
     (let currentGasPrice = number_of_gasPrice gasPrice in
      if \<not> truthy currentGasPrice
      then throw (Error ''Current gas price not found'')
      else liquidateChunks w g tokenAddr flowsToLiquidate currentGasPrice)))"

definition processToken :: "world \<Rightarrow> graphinator \<Rightarrow> string \<Rightarrow> unit prog" where
  \<comment> \<open>the body of the loop over the token addresses\<close>
  "processToken w g tokenAddr =
     bind (await (GetFlowsToLiquidate tokenAddr)
             (\<lambda>h. w_getFlowsToLiquidate w h tokenAddr (depositConsumedPctThreshold g)
                     (calculateMaxGasPrice g))) (\<lambda>flowsToLiquidate.
     if length flowsToLiquidate > 0
     then liquidateFlows w g tokenAddr flowsToLiquidate
     else emit (LogNoCriticalAccounts tokenAddr))"

definition getSuperTokens :: "world \<Rightarrow> bool \<Rightarrow> string list prog" where
  "getSuperTokens w listed =
     bind (await (GetSuperTokens listed) (\<lambda>h. w_getSuperTokens w h listed)) (\<lambda>ids.
     ret (map toLowerCase ids))"

definition processAll :: "world \<Rightarrow> graphinator \<Rightarrow> string option \<Rightarrow> unit prog" where
  "processAll w g tok =
     bind (case tok of
             None \<Rightarrow> getSuperTokens w (isListed g)
           | Some t \<Rightarrow>
               if t \<noteq> []
               then bind (await (ResolveAddress t) (\<lambda>h. w_resolveAddress w h t))
                      (\<lambda>resolved. ret [toLowerCase resolved])
               else getSuperTokens w (isListed g)) (\<lambda>tokenAddrs.
     bind (emit (LogProcessing (length tokenAddrs) (isListed g))) (\<lambda>_.
     for_each tokenAddrs (processToken w g)))"

text \<open>The constructor's check of the three limits.\<close>

definition limits_accepted :: "graphinator \<Rightarrow> bool" where
  "limits_accepted g =
     (\<not> (num_less (fallbackGasPriceLimit g) (minGasPriceLimit g)
         \<or> num_less (referenceGasPriceLimit g) (minGasPriceLimit g)))"

section \<open>Vocabulary of the properties\<close>

definition setPrice :: "graphinator \<Rightarrow> string \<Rightarrow> number \<Rightarrow> graphinator" where
  \<comment> \<open>the same instance with another entry of the price table\<close>
  "setPrice g t p = g\<lparr>tokenPrices := (tokenPrices g)(t \<mapsto> p)\<rparr>"


definition whole :: "number \<Rightarrow> bool" where
  \<comment> \<open>an integer or an infinity\<close>
  "whole a = (case a of Num x \<Rightarrow> of_int \<lfloor>x\<rfloor> = x | NaN \<Rightarrow> False | _ \<Rightarrow> True)"

definition emits :: "(event \<Rightarrow> bool) \<Rightarrow> 'a prog \<Rightarrow> bool" where
  \<comment> \<open>the program only appends events, and every event it appends satisfies \<open>P\<close>\<close>
  "emits P m = (\<forall>h. \<exists>evs. snd (m h) = h @ evs \<and> list_all P evs)"

fun signs_or_broadcasts :: "event \<Rightarrow> bool" where
  "signs_or_broadcasts (SignTransaction t) = True"
| "signs_or_broadcasts (BroadcastTransaction s) = True"
| "signs_or_broadcasts e = False"

fun assembled :: "event \<Rightarrow> tx option" where
  \<comment> \<open>the transaction request, where an event shows one\<close>
  "assembled (SignTransaction t) = Some t"
| "assembled (LogDryRun t) = Some t"
| "assembled e = None"


definition bids :: "number \<Rightarrow> event \<Rightarrow> bool" where
  \<comment> \<open>an event that shows a transaction request shows this gas price\<close>
  "bids p e = (case assembled e of None \<Rightarrow> e \<noteq> GetFeeData | Some t \<Rightarrow> tx_gasPrice t = p)"

section \<open>Example inputs\<close>

definition example_graphinator :: graphinator where
  \<comment> \<open>the limits of the command line's defaults: 1000, 10000 and 100 mwei\<close>
  "example_graphinator =
     \<lparr>depositConsumedPctThreshold = Num 20, batchSize = Num 2,
      gasMultiplier = rnd (12 / 10),
      referenceGasPriceLimit = Num 1000000000, fallbackGasPriceLimit = Num 10000000000,
      minGasPriceLimit = Num 100000000, isListed = True,
      tokenPrices = [''0xaa'' \<mapsto> Num 2, ''0xdd'' \<mapsto> rnd (1 / 1000000)]\<rparr>"

definition example_flow :: "string \<Rightarrow> int \<Rightarrow> rat \<Rightarrow> flow" where
  "example_flow t r pct =
     \<lparr>agreementType = 0, sender = ''0x01'', receiver = ''0x02'', token = t,
      flowrate = r, consumedDepositPercentage = Some (Num pct)\<rparr>"

definition example_world ::
  "string list \<Rightarrow> int option \<Rightarrow> (string \<Rightarrow> flow list) \<Rightarrow> (event list \<Rightarrow> error + int)
     \<Rightarrow> string option \<Rightarrow> world" where
  "example_world ids fee flows estimate dry =
     \<lparr>w_resolveAddress = (\<lambda>h a. Inr a),
      w_getSuperTokens = (\<lambda>h listed. Inr ids),
      w_getFlowsToLiquidate = (\<lambda>h t threshold ceiling. Inr (flows t)),
      w_getFeeData = (\<lambda>h. Inr fee),
      w_encodeFunctionData = (\<lambda>h t params. Inr ''deleteFlows''),
      w_getAddress = (\<lambda>h. Inr ''0xb1''),
      w_estimateGas = (\<lambda>h t d. estimate h),
      w_getNetwork = (\<lambda>h. Inr 8453),
      w_getTransactionCount = (\<lambda>h a. Inr 7),
      w_signTransaction = (\<lambda>h t. Inr ''signed''),
      w_broadcastTransaction = (\<lambda>h s. Inr ''0xf00d''),
      w_wait = (\<lambda>h r. Inr (Some ''0xf00d'')),
      w_walletAddress = ''0xc0'',
      w_DRY_RUN = dry\<rparr>"

definition scenario_flows :: "flow list" where
  \<comment> \<open>flows worth 2 and 0.5 dollars a day at a price of 2, and a flow of unknown price\<close>
  "scenario_flows =
     [example_flow ''0xaa'' 11574074074074 100,
      example_flow ''0xaa'' 2893518518518 100,
      example_flow ''0xcc'' 5 100]"

definition example_flows :: "string \<Rightarrow> flow list" where
  "example_flows t = [example_flow t 5 100]"

definition two_flows :: "string \<Rightarrow> flow list" where
  "two_flows t = [example_flow t 5 100, example_flow t 7 200]"

definition three_flows :: "flow list" where
  "three_flows =
     [example_flow ''0xcc'' 5 100, example_flow ''0xcc'' 6 100, example_flow ''0xcc'' 7 100]"

definition dry_world :: world where
  "dry_world =
     example_world [''0xAA'', ''0xbb''] (Some 1000000007) example_flows (\<lambda>h. Inr 100000)
       (Some ''1'')"

definition no_fee_world :: world where
  \<comment> \<open>the fee data has no gas price\<close>
  "no_fee_world =
     example_world [''0xAA'', ''0xbb''] None example_flows (\<lambda>h. Inr 100000) None"

definition flaky_world :: world where
  \<comment> \<open>the first gas estimation of the run fails\<close>
  "flaky_world =
     example_world [''0xCC'', ''0xee''] (Some 1000000007) two_flows
       (\<lambda>h. if EstimateGas ''0xb1'' ''deleteFlows'' \<in> set h then Inr 100000
            else Inl (Error ''cannot estimate gas''))
       None"

definition single_batches :: graphinator where
  \<comment> \<open>the default batch size\<close>
  "single_batches = example_graphinator\<lparr>batchSize := Num 1\<rparr>"

definition fractional_batches :: graphinator where
  "fractional_batches = example_graphinator\<lparr>batchSize := Num (3 / 2)\<rparr>"

definition small_limits :: graphinator where
  "small_limits =
     example_graphinator\<lparr>referenceGasPriceLimit := Num 3, fallbackGasPriceLimit := Num 3,
       minGasPriceLimit := Num 1\<rparr>"

section \<open>Rounding to the nearest number\<close>

lemma floor_rat_numeral [simp]:
  "\<lfloor>numeral a / numeral b :: rat\<rfloor> = numeral a div numeral b"
  using floor_divide_of_int_eq [of "numeral a" "numeral b", where ?'a = rat] by simp

lemma floor_rat_one_numeral [simp]:
  "\<lfloor>1 / numeral b :: rat\<rfloor> = 1 div numeral b"
  using floor_divide_of_int_eq [of 1 "numeral b", where ?'a = rat] by simp

lemma floor_rat_minus_numeral [simp]:
  "\<lfloor>- (numeral a / numeral b) :: rat\<rfloor> = - numeral a div numeral b"
  using floor_divide_of_int_eq [of "- numeral a" "numeral b", where ?'a = rat] by simp

lemma pow2_less_iff: "(2 :: rat) powi m < 2 powi n \<longleftrightarrow> m < n"
proof
  assume "(2 :: rat) powi m < 2 powi n"
  show "m < n"
  proof (rule ccontr)
    assume "\<not> m < n"
    then have "(2 :: rat) powi n \<le> 2 powi m" by (simp add: power_int_increasing)
    then show False using \<open>(2 :: rat) powi m < 2 powi n\<close> by simp
  qed
next
  assume "m < n"
  then show "(2 :: rat) powi m < 2 powi n" by (simp add: power_int_strict_increasing)
qed

lemma pow2_le_iff: "(2 :: rat) powi m \<le> 2 powi n \<longleftrightarrow> m \<le> n"
  using pow2_less_iff [of n m] by (auto simp: not_less [symmetric])

lemma pow2_bitlen:
  assumes "0 < p"
  shows "2 powi (bitlen p - 1) \<le> (of_int p :: rat)" "(of_int p :: rat) < 2 powi bitlen p"
proof -
  have b: "1 \<le> bitlen p" using assms by (simp add: bitlen_alt_def)
  have "2 ^ nat (bitlen p - 1) \<le> p" "p < 2 ^ nat (bitlen p)"
    using bitlen_bounds [OF assms] by simp_all
  then have "(of_int (2 ^ nat (bitlen p - 1)) :: rat) \<le> of_int p"
    "(of_int p :: rat) < of_int (2 ^ nat (bitlen p))"
    by (simp_all only: of_int_le_iff of_int_less_iff)
  then show "2 powi (bitlen p - 1) \<le> (of_int p :: rat)" "(of_int p :: rat) < 2 powi bitlen p"
    using b by (simp_all add: power_int_def)
qed

lemma ilog2_bounds:
  assumes "0 < a"
  shows "2 powi ilog2 a \<le> a \<and> a < 2 powi (ilog2 a + 1)"
proof -
  obtain p q where pq: "quotient_of a = (p, q)" by (cases "quotient_of a")
  have q: "0 < q" using pq by (rule quotient_of_denom_pos)
  have a: "a = of_int p / of_int q" using pq by (rule quotient_of_div)
  have p: "0 < p" using assms a q by (simp add: zero_less_divide_iff)
  let ?d = "bitlen p - bitlen q"
  have lo: "2 powi (?d - 1) \<le> a"
  proof -
    have "2 powi (?d - 1) = (2 powi (bitlen p - 1) :: rat) / 2 powi bitlen q"
      using power_int_diff [of "2 :: rat" "bitlen p - 1" "bitlen q"] by (simp add: algebra_simps)
    also have "\<dots> \<le> of_int p / 2 powi bitlen q"
      using pow2_bitlen(1) [OF p] by (simp add: divide_right_mono)
    also have "\<dots> \<le> of_int p / of_int q"
      using pow2_bitlen(2) [OF q] p q by (simp add: frac_le)
    finally show ?thesis using a by simp
  qed
  have hi: "a < 2 powi (?d + 1)"
  proof -
    have "a = of_int p / of_int q" by (rule a)
    also have "\<dots> < 2 powi bitlen p / of_int q"
      using pow2_bitlen(2) [OF p] q by (simp add: divide_strict_right_mono)
    also have "\<dots> \<le> 2 powi bitlen p / 2 powi (bitlen q - 1)"
      using pow2_bitlen(1) [OF q] by (simp add: frac_le)
    also have "\<dots> = 2 powi (?d + 1)"
      using power_int_diff [of "2 :: rat" "bitlen p" "bitlen q - 1"] by (simp add: algebra_simps)
    finally show ?thesis .
  qed
  show ?thesis
  proof (cases "2 powi ?d \<le> a")
    case True
    then show ?thesis using hi pq by (simp add: ilog2_def)
  next
    case False
    then show ?thesis using lo pq by (simp add: ilog2_def)
  qed
qed

lemma ilog2_eqI:
  assumes "2 powi e \<le> a" "a < 2 powi (e + 1)"
  shows "ilog2 a = e"
proof -
  have "0 < a" using assms(1) by (meson less_le_trans zero_less_numeral zero_less_power_int)
  then have b: "2 powi ilog2 a \<le> a" "a < 2 powi (ilog2 a + 1)" using ilog2_bounds by simp_all
  have "(2 :: rat) powi e < 2 powi (ilog2 a + 1)" using assms(1) b(2) by simp
  then have "e < ilog2 a + 1" by (simp add: pow2_less_iff)
  moreover have "(2 :: rat) powi ilog2 a < 2 powi (e + 1)" using assms(2) b(1) by simp
  then have "ilog2 a < e + 1" by (simp add: pow2_less_iff)
  ultimately show ?thesis by simp
qed


lemma round_half_even_bounds:
  "of_int (round_half_even y) \<le> y + 1 / 2" "y - 1 / 2 \<le> of_int (round_half_even y)"
  unfolding round_half_even_def Let_def by (auto; linarith)+

lemma round_half_even_of_int [simp]: "round_half_even (of_int k) = k"
  by (simp add: round_half_even_def)

lemma round_half_even_ge: "of_int k \<le> y \<Longrightarrow> k \<le> round_half_even y"
proof -
  assume "of_int k \<le> y"
  then have k: "k \<le> \<lfloor>y\<rfloor>" by (simp add: le_floor_iff)
  have "\<lfloor>y\<rfloor> \<le> round_half_even y" by (simp add: round_half_even_def Let_def)
  then show ?thesis using k by simp
qed

lemma round_half_even_le: "y \<le> of_int k \<Longrightarrow> round_half_even y \<le> k"
proof (cases "y = of_int k")
  case True
  then show ?thesis by simp
next
  case False
  assume "y \<le> of_int k"
  then have "y < of_int k" using False by simp
  then have "\<lfloor>y\<rfloor> < k" by (simp add: floor_less_iff)
  moreover have "round_half_even y \<le> \<lfloor>y\<rfloor> + 1" by (simp add: round_half_even_def Let_def)
  ultimately show ?thesis by simp
qed

lemma round_half_even_mono: "x \<le> y \<Longrightarrow> round_half_even x \<le> round_half_even y"
proof -
  assume xy: "x \<le> y"
  have f: "\<lfloor>x\<rfloor> \<le> \<lfloor>y\<rfloor>" using xy by (rule floor_mono)
  show ?thesis
  proof (cases "\<lfloor>x\<rfloor> = \<lfloor>y\<rfloor>")
    case True
    then have "x - of_int \<lfloor>x\<rfloor> \<le> y - of_int \<lfloor>y\<rfloor>" using xy by simp
    then show ?thesis using True by (auto simp: round_half_even_def Let_def)
  next
    case False
    then have "\<lfloor>x\<rfloor> + 1 \<le> \<lfloor>y\<rfloor>" using f by simp
    moreover have "round_half_even x \<le> \<lfloor>x\<rfloor> + 1" by (simp add: round_half_even_def Let_def)
    moreover have "\<lfloor>y\<rfloor> \<le> round_half_even y" by (simp add: round_half_even_def Let_def)
    ultimately show ?thesis by linarith
  qed
qed

text \<open>The rounding of a value whose binary exponent is given.\<close>

lemma rnd_at:
  assumes "2 powi e \<le> \<bar>x\<bar>" "\<bar>x\<bar> < 2 powi (e + 1)"
  shows "rnd x =
     (let q = max e (- 1022) - 52;
          r = of_int (round_half_even (\<bar>x\<bar> / 2 powi q)) * 2 powi q
      in if 2 ^ 1024 \<le> r then (if 0 < x then PInf else NInf) else Num (sgn x * r))"
proof -
  have "ilog2 \<bar>x\<bar> = e" using assms by (rule ilog2_eqI)
  moreover have "x \<noteq> 0"
  proof
    assume "x = 0"
    then have "(2 :: rat) powi e \<le> 0" using assms(1) by simp
    moreover have "(0 :: rat) < 2 powi e" by simp
    ultimately show False by linarith
  qed
  ultimately show ?thesis by (simp add: rnd_def nearest_def binade_def Let_def)
qed

lemma nearest_neg [simp]: "nearest (- x) = nearest x"
  by (simp add: nearest_def binade_def)

lemma rnd_neg: "rnd (- x) = neg (rnd x)"
  by (auto simp: rnd_def)

lemma ilog2_mono:
  assumes "0 < x" "x \<le> y"
  shows "ilog2 x \<le> ilog2 y"
proof -
  have "2 powi ilog2 x \<le> x" using ilog2_bounds [OF assms(1)] by simp
  moreover have "y < 2 powi (ilog2 y + 1)" using ilog2_bounds [of y] assms by simp
  ultimately have "(2 :: rat) powi ilog2 x < 2 powi (ilog2 y + 1)" using assms(2) by linarith
  then show ?thesis by (simp add: pow2_less_iff)
qed

lemma pow2_split53: "(2 :: rat) powi (b + 1) = 2 ^ 53 * 2 powi (b - 52)"
proof -
  have "(2 :: rat) powi (53 + (b - 52)) = 2 powi 53 * 2 powi (b - 52)"
    by (rule power_int_add) simp
  moreover have "53 + (b - 52) = b + 1" by simp
  ultimately show ?thesis by simp
qed

lemma pow2_split52: "(2 :: rat) powi b = 2 ^ 52 * 2 powi (b - 52)"
proof -
  have "(2 :: rat) powi (52 + (b - 52)) = 2 powi 52 * 2 powi (b - 52)"
    by (rule power_int_add) simp
  moreover have "52 + (b - 52) = b" by simp
  ultimately show ?thesis by simp
qed

lemma nearest_nonneg: "0 \<le> nearest x"
proof -
  have "(0 :: rat) \<le> \<bar>x\<bar> / 2 powi (binade x - 52)" by simp
  then have "0 \<le> round_half_even (\<bar>x\<bar> / 2 powi (binade x - 52))"
    using round_half_even_ge [of 0] by simp
  then show ?thesis by (simp add: nearest_def)
qed

lemma nearest_upper:
  assumes "0 < x"
  shows "nearest x \<le> 2 powi (binade x + 1)"
proof -
  let ?q = "binade x - 52"
  have "x < 2 powi (ilog2 x + 1)" using ilog2_bounds [OF assms] by simp
  also have "\<dots> \<le> 2 powi (binade x + 1)"
    using assms by (simp add: binade_def pow2_le_iff)
  also have "\<dots> = 2 ^ 53 * 2 powi ?q" by (rule pow2_split53)
  finally have "x / 2 powi ?q \<le> 2 ^ 53" by (simp add: pos_divide_le_eq)
  then have "\<bar>x\<bar> / 2 powi ?q \<le> of_int (2 ^ 53)" using assms by simp
  then have "round_half_even (\<bar>x\<bar> / 2 powi ?q) \<le> 2 ^ 53" by (rule round_half_even_le)
  then have "(of_int (round_half_even (\<bar>x\<bar> / 2 powi ?q)) :: rat) \<le> of_int (2 ^ 53)"
    by (simp only: of_int_le_iff)
  then have "nearest x \<le> of_int (2 ^ 53) * 2 powi ?q"
    by (simp add: nearest_def mult_right_mono)
  then show ?thesis using pow2_split53 [of "binade x"] by simp
qed

lemma nearest_lower:
  assumes "0 < x" "- 1022 \<le> ilog2 x"
  shows "2 powi binade x \<le> nearest x"
proof -
  let ?q = "binade x - 52"
  have b: "binade x = ilog2 x" using assms by (simp add: binade_def)
  have "2 powi binade x \<le> x" using ilog2_bounds [OF assms(1)] b by simp
  then have "2 ^ 52 * 2 powi ?q \<le> x" using pow2_split52 [of "binade x"] by simp
  then have "2 ^ 52 \<le> x / 2 powi ?q" by (simp add: pos_le_divide_eq)
  then have "of_int (2 ^ 52) \<le> \<bar>x\<bar> / 2 powi ?q" using assms by simp
  then have "2 ^ 52 \<le> round_half_even (\<bar>x\<bar> / 2 powi ?q)" by (rule round_half_even_ge)
  then have "(of_int (2 ^ 52) :: rat) \<le> of_int (round_half_even (\<bar>x\<bar> / 2 powi ?q))"
    by (simp only: of_int_le_iff)
  then have "of_int (2 ^ 52) * 2 powi ?q \<le> nearest x"
    by (simp add: nearest_def mult_right_mono)
  then show ?thesis using pow2_split52 [of "binade x"] by simp
qed

lemma nearest_mono:
  assumes "0 < x" "x \<le> y"
  shows "nearest x \<le> nearest y"
proof -
  have y: "0 < y" using assms by simp
  have le: "binade x \<le> binade y"
    using ilog2_mono [OF assms] assms by (simp add: binade_def)
  show ?thesis
  proof (cases "binade x = binade y")
    case True
    have "\<bar>x\<bar> / 2 powi (binade y - 52) \<le> \<bar>y\<bar> / 2 powi (binade y - 52)"
      using assms by (simp add: divide_right_mono)
    then have "round_half_even (\<bar>x\<bar> / 2 powi (binade y - 52))
        \<le> round_half_even (\<bar>y\<bar> / 2 powi (binade y - 52))"
      by (rule round_half_even_mono)
    then have "(of_int (round_half_even (\<bar>x\<bar> / 2 powi (binade y - 52))) :: rat)
        \<le> of_int (round_half_even (\<bar>y\<bar> / 2 powi (binade y - 52)))"
      by (simp only: of_int_le_iff)
    then show ?thesis using True by (simp add: nearest_def mult_right_mono)
  next
    case False
    then have lt: "binade x + 1 \<le> binade y" using le by simp
    then have "- 1022 < binade y" by (simp add: binade_def)
    then have "- 1022 \<le> ilog2 y" using y by (simp add: binade_def)
    then have "2 powi binade y \<le> nearest y" using nearest_lower [OF y] by simp
    moreover have "nearest x \<le> 2 powi (binade x + 1)" using nearest_upper [OF assms(1)] .
    moreover have "(2 :: rat) powi (binade x + 1) \<le> 2 powi binade y"
      using lt by (simp add: pow2_le_iff)
    ultimately show ?thesis by linarith
  qed
qed

lemma rnd_mono_pos:
  assumes "0 < x" "x \<le> y"
  shows "num_le (rnd x) (rnd y)"
  using nearest_mono [OF assms] assms by (simp add: rnd_def)

lemma rnd_nonneg: "0 \<le> x \<Longrightarrow> num_le (Num 0) (rnd x)"
  using nearest_nonneg [of x] by (simp add: rnd_def)

lemma num_le_neg: "num_le a b \<Longrightarrow> num_le (neg b) (neg a)"
  by (cases a; cases b) simp_all

lemma num_le_trans: "num_le a b \<Longrightarrow> num_le b c \<Longrightarrow> num_le a c"
  by (cases a; cases b; cases c) simp_all

lemma num_less_imp_le: "num_less a b \<Longrightarrow> num_le a b"
  by (cases a; cases b) simp_all

lemma rnd_mono:
  assumes "x \<le> y"
  shows "num_le (rnd x) (rnd y)"
proof -
  consider "0 < x" | "x \<le> 0" "0 \<le> y" | "y < 0" using assms by linarith
  then show ?thesis
  proof cases
    case 1
    then show ?thesis using assms by (rule rnd_mono_pos)
  next
    case 2
    have "num_le (Num 0) (rnd (- x))" using 2(1) by (simp add: rnd_nonneg)
    then have "num_le (rnd x) (Num 0)" using num_le_neg [of "Num 0" "rnd (- x)"]
      by (simp add: rnd_neg) (cases "rnd x"; simp)
    moreover have "num_le (Num 0) (rnd y)" using 2(2) by (rule rnd_nonneg)
    ultimately show ?thesis by (rule num_le_trans)
  next
    case 3
    then have "num_le (rnd (- y)) (rnd (- x))" using assms by (simp add: rnd_mono_pos)
    then have "num_le (neg (neg (rnd x))) (neg (neg (rnd y)))"
      by (simp only: rnd_neg num_le_neg)
    then show ?thesis by (cases "rnd x"; cases "rnd y") simp_all
  qed
qed


lemma nearest_exact:
  assumes "\<bar>x\<bar> / 2 powi (binade x - 52) = of_int m"
  shows "nearest x = \<bar>x\<bar>"
proof -
  have "nearest x = of_int m * 2 powi (binade x - 52)"
    using assms by (simp add: nearest_def)
  also have "\<dots> = \<bar>x\<bar>" using assms [symmetric] by simp
  finally show ?thesis .
qed

lemma rnd_exact:
  assumes "nearest x = \<bar>x\<bar>" "\<bar>x\<bar> < 2 ^ 1024"
  shows "rnd x = Num x"
proof -
  have "sgn x * \<bar>x\<bar> = x" by (simp add: sgn_mult_abs)
  then show ?thesis using assms by (simp add: rnd_def)
qed

lemma rnd_of_int:
  assumes "\<bar>k\<bar> \<le> 2 ^ 53"
  shows "rnd (of_int k) = Num (of_int k)"
proof (cases "k = 0")
  case True
  then show ?thesis by (simp add: rnd_def)
next
  case False
  let ?x = "of_int k :: rat"
  let ?e = "ilog2 \<bar>?x\<bar>"
  have pos: "0 < \<bar>?x\<bar>" using False by simp
  have one: "1 \<le> \<bar>?x\<bar>"
  proof -
    have "1 \<le> \<bar>k\<bar>" using False by simp
    then have "(of_int 1 :: rat) \<le> of_int \<bar>k\<bar>" by (simp only: of_int_le_iff)
    then show ?thesis by simp
  qed
  have top: "\<bar>?x\<bar> \<le> 2 ^ 53"
  proof -
    have "(of_int \<bar>k\<bar> :: rat) \<le> of_int (2 ^ 53)" using assms by (simp only: of_int_le_iff)
    then show ?thesis by simp
  qed
  have b: "2 powi ?e \<le> \<bar>?x\<bar>" "\<bar>?x\<bar> < 2 powi (?e + 1)"
    using ilog2_bounds [OF pos] by simp_all
  have "(2 :: rat) powi 0 < 2 powi (?e + 1)" using one b(2) by simp
  then have "0 < ?e + 1" by (simp only: pow2_less_iff)
  then have e0: "0 \<le> ?e" by simp
  have "(2 :: rat) powi ?e \<le> 2 powi 53" using b(1) top by simp
  then have e53: "?e \<le> 53" by (simp only: pow2_le_iff)
  have bin: "binade ?x = ?e" using e0 by (simp add: binade_def)
  have "\<exists>m. \<bar>?x\<bar> / 2 powi (?e - 52) = of_int m"
  proof (cases "?e \<le> 52")
    case True
    then have "(2 :: rat) powi (- (?e - 52)) = 2 ^ nat (52 - ?e)"
      by (simp add: power_int_def)
    moreover have "inverse ((2 :: rat) powi (?e - 52)) = 2 powi (- (?e - 52))"
      by (simp only: power_int_minus)
    ultimately have "\<bar>?x\<bar> / 2 powi (?e - 52) = \<bar>?x\<bar> * 2 ^ nat (52 - ?e)"
      by (simp only: divide_inverse)
    also have "\<dots> = of_int (\<bar>k\<bar> * 2 ^ nat (52 - ?e))" by simp
    finally show ?thesis by blast
  next
    case False
    then have e: "?e = 53" using e53 by simp
    then have "\<bar>?x\<bar> = 2 ^ 53" using b(1) top by simp
    then have "\<bar>?x\<bar> / 2 powi (?e - 52) = of_int (2 ^ 52)" using e by simp
    then show ?thesis by blast
  qed
  then obtain m where "\<bar>?x\<bar> / 2 powi (binade ?x - 52) = of_int m" using bin by auto
  then have "nearest ?x = \<bar>?x\<bar>" by (rule nearest_exact)
  moreover have "\<bar>?x\<bar> < 2 ^ 1024" using top by simp
  ultimately show ?thesis by (rule rnd_exact)
qed

lemma rnd_nat: "n \<le> 2 ^ 53 \<Longrightarrow> rnd (of_nat n) = Num (of_nat n)"
  using rnd_of_int [of "int n"] by simp

lemma rnd_numeral [simp]:
  "numeral k \<le> (2 ^ 53 :: int) \<Longrightarrow> rnd (numeral k) = Num (numeral k)"
  using rnd_of_int [of "numeral k"] by simp

lemma rnd_0 [simp]: "rnd 0 = Num 0"
  by (simp add: rnd_def)

lemma rnd_1 [simp]: "rnd 1 = Num 1"
  using rnd_of_int [of 1] by simp

lemma rnd_neg_numeral [simp]:
  "numeral k \<le> (2 ^ 53 :: int) \<Longrightarrow> rnd (- numeral k) = Num (- numeral k)"
  using rnd_of_int [of "- numeral k"] by simp

lemma number_of_bigint_numeral [simp]:
  "numeral k \<le> (2 ^ 53 :: int) \<Longrightarrow> number_of_bigint (numeral k) = Num (numeral k)"
  by (simp add: number_of_bigint_def)

lemma number_of_bigint_0 [simp]: "number_of_bigint 0 = Num 0"
  by (simp add: number_of_bigint_def)

lemma number_of_bigint_1 [simp]: "number_of_bigint 1 = Num 1"
  by (simp add: number_of_bigint_def)

section \<open>Properties of the gas price ceiling\<close>

lemmas policy_defs = calculateMaxGasPrice_def baseMaxGasPrice_def dailyNFR_def
  refDailyNFR_def timeMultiplier_def fsub_def math_max_def math_min_def Let_def

lemmas example_defs = example_graphinator_def example_flow_def example_world_def

lemma example_limits_accepted: "limits_accepted example_graphinator"
  by (simp add: limits_accepted_def example_graphinator_def)

lemma baseMaxGasPrice_pct [simp]:
  "baseMaxGasPrice g (f\<lparr>consumedDepositPercentage := c\<rparr>) = baseMaxGasPrice g f"
  by (simp add: baseMaxGasPrice_def dailyNFR_def split: option.split)

lemma timeMultiplier_flowrate [simp]:
  "timeMultiplier (f\<lparr>flowrate := r\<rparr>) = timeMultiplier f"
  by (simp add: timeMultiplier_def)

text \<open>
  The numbers of the examples: the prices 0.000001 and 0.00001, the daily values of a
  flow of 1 unit a second at these prices, and \<open>10\<^sup>-\<^sup>9\<close>.
\<close>

lemma rnd_price6: "rnd (1 / 1000000) = Num (4722366482869645 / 4722366482869645213696)"
  using rnd_at [of "- 20" "1 / 1000000"] by (simp add: round_half_even_def Let_def)

lemma rnd_price5: "rnd (1 / 100000) = Num (5902958103587057 / 590295810358705651712)"
  using rnd_at [of "- 17" "1 / 100000"] by (simp add: round_half_even_def Let_def)

lemma rnd_daily6: "rnd (3187597375937010375 / 36893488147419103232) = Num (6225776124876973 / 72057594037927936)"
  using rnd_at [of "- 4" "3187597375937010375 / 36893488147419103232"] by (simp add: round_half_even_def Let_def)

lemma rnd_daily5: "rnd (3984496719921263475 / 4611686018427387904) = Num (3891110078048109 / 4503599627370496)"
  using rnd_at [of "- 1" "3984496719921263475 / 4611686018427387904"] by (simp add: round_half_even_def Let_def)

lemma rnd_nano: "rnd (1 / 1000000000) = Num (4835703278458517 / 4835703278458516698824704)"
  using rnd_at [of "- 30" "1 / 1000000000"] by (simp add: round_half_even_def Let_def)


text \<open>
  Claim C2. For a flow whose token price is in the table, the base ceiling should be the
  larger of the minimum limit and the proportional limit, and the fallback limit should
  not be used, also where the daily value rounds to zero. The program does otherwise: a
  flow of 1 unit a second of a token priced at a millionth of a dollar has a daily value
  that rounds to 0, which the test \<^verbatim>\<open>dailyNFR ? ... : fallback\<close> takes for a missing
  value. The base ceiling is then the fallback limit, a hundred times the minimum limit
  that the formula of the claim gives.
\<close>

theorem dust_flow_gets_fallback:
  "tokenPrices example_graphinator (token (example_flow ''0xdd'' 1 100))
     = Some (rnd (1 / 1000000))
   \<and> dailyNFR example_graphinator (example_flow ''0xdd'' 1 100) = Some (Num 0)
   \<and> baseMaxGasPrice example_graphinator (example_flow ''0xdd'' 1 100)
       = fallbackGasPriceLimit example_graphinator
   \<and> math_max (minGasPriceLimit example_graphinator)
        (math_round
           (fdiv
              (fmul
                 (math_round
                    (fmul (fmul (number_of_bigint (flowrate (example_flow ''0xdd'' 1 100)))
                       (Num 86400)) (rnd (1 / 1000000))))
                 (referenceGasPriceLimit example_graphinator))
              (Num (10 ^ 18)))) = Num 100000000
   \<and> calculateMaxGasPrice example_graphinator (example_flow ''0xdd'' 1 100)
       = Num 10000000000"
  by (simp add: policy_defs example_defs rnd_price6 rnd_daily6)

text \<open>
  Claim C3. The ceiling should not decrease as the price of the token grows. The program
  does otherwise, through its test of the daily value: for a flow of 1 unit a second, the
  price 0.000001 gives a daily value that rounds to 0 and with it the fallback limit, and
  the ten times higher price 0.00001 gives a daily value of 1 and with it the minimum
  limit, a hundredth of the ceiling at the lower price.
\<close>

theorem price_rise_lowers_ceiling:
  "num_less (rnd (1 / 1000000)) (rnd (1 / 100000))
   \<and> tokenPrices (setPrice example_graphinator ''0xdd'' (rnd (1 / 1000000)))
        (token (example_flow ''0xdd'' 1 100)) = Some (rnd (1 / 1000000))
   \<and> tokenPrices (setPrice example_graphinator ''0xdd'' (rnd (1 / 100000)))
        (token (example_flow ''0xdd'' 1 100)) = Some (rnd (1 / 100000))
   \<and> calculateMaxGasPrice (setPrice example_graphinator ''0xdd'' (rnd (1 / 1000000)))
        (example_flow ''0xdd'' 1 100) = Num 10000000000
   \<and> calculateMaxGasPrice (setPrice example_graphinator ''0xdd'' (rnd (1 / 100000)))
        (example_flow ''0xdd'' 1 100) = Num 100000000"
  by (simp add: policy_defs example_defs setPrice_def rnd_price6 rnd_price5 rnd_daily6
      rnd_daily5 rnd_nano)

text \<open>
  In the consumed deposit percentage the ceiling is monotone: with a base ceiling that is
  not negative, the ceiling does not decrease as the percentage grows. Every operation on
  the way from the percentage to the ceiling is monotone, the rounding of its result
  included.
\<close>

lemma rnd_not_NaN [simp]: "rnd x \<noteq> NaN"
  by (simp add: rnd_def)

lemma num_le_PInf: "a \<noteq> NaN \<Longrightarrow> num_le a PInf"
  by (cases a) simp_all

lemma num_le_NInf: "a \<noteq> NaN \<Longrightarrow> num_le NInf a"
  by (cases a) simp_all

lemma fadd_mono_left: "num_le a b \<Longrightarrow> num_le (fadd a (Num k)) (fadd b (Num k))"
  by (cases a; cases b) (simp_all add: rnd_mono num_le_PInf num_le_NInf)

lemma fmul_mono_left: "num_le a b \<Longrightarrow> 0 < k \<Longrightarrow> num_le (fmul a (Num k)) (fmul b (Num k))"
  by (cases a; cases b) (simp_all add: rnd_mono num_le_PInf num_le_NInf)

lemma fdiv_mono_left: "num_le a b \<Longrightarrow> 0 < k \<Longrightarrow> num_le (fdiv a (Num k)) (fdiv b (Num k))"
  by (cases a; cases b) (simp_all add: rnd_mono divide_right_mono num_le_PInf num_le_NInf)

lemma math_min_mono: "num_le a b \<Longrightarrow> num_le (math_min a (Num k)) (math_min b (Num k))"
  by (cases a; cases b) (auto simp: math_min_def)

lemma math_round_mono: "num_le a b \<Longrightarrow> num_le (math_round a) (math_round b)"
  by (cases a; cases b) (simp_all add: floor_mono)

lemma days_mono:
  assumes "num_le p q"
  shows "num_le
    (math_min (fdiv (fdiv (fmul (fsub p (Num 100)) (Num 4)) (Num 100)) (Num 24)) (Num 10))
    (math_min (fdiv (fdiv (fmul (fsub q (Num 100)) (Num 4)) (Num 100)) (Num 24)) (Num 10))"
proof -
  have "num_le (fsub p (Num 100)) (fsub q (Num 100))"
    using assms by (simp add: fsub_def fadd_mono_left)
  then have "num_le (fmul (fsub p (Num 100)) (Num 4)) (fmul (fsub q (Num 100)) (Num 4))"
    by (rule fmul_mono_left) simp
  then have "num_le (fdiv (fmul (fsub p (Num 100)) (Num 4)) (Num 100))
      (fdiv (fmul (fsub q (Num 100)) (Num 4)) (Num 100))"
    by (rule fdiv_mono_left) simp
  then have "num_le (fdiv (fdiv (fmul (fsub p (Num 100)) (Num 4)) (Num 100)) (Num 24))
      (fdiv (fdiv (fmul (fsub q (Num 100)) (Num 4)) (Num 100)) (Num 24))"
    by (rule fdiv_mono_left) simp
  then show ?thesis by (rule math_min_mono)
qed

lemma days_range:
  assumes "num_less (Num 100) p"
  shows "\<exists>d. math_min (fdiv (fdiv (fmul (fsub p (Num 100)) (Num 4)) (Num 100)) (Num 24))
           (Num 10) = Num d \<and> 0 \<le> d \<and> d \<le> 10"
proof -
  let ?d = "\<lambda>p. math_min (fdiv (fdiv (fmul (fsub p (Num 100)) (Num 4)) (Num 100))
    (Num 24)) (Num 10)"
  have "num_le (Num 100) p" using assms by (rule num_less_imp_le)
  then have "num_le (?d (Num 100)) (?d p)" by (rule days_mono)
  moreover have "?d (Num 100) = Num 0" by (simp add: fsub_def math_min_def)
  ultimately have low: "num_le (Num 0) (?d p)" by simp
  show ?thesis
  proof (cases "fdiv (fdiv (fmul (fsub p (Num 100)) (Num 4)) (Num 100)) (Num 24)")
    case (Num y)
    then show ?thesis using low by (auto simp: math_min_def)
  qed (use low in \<open>auto simp: math_min_def\<close>)
qed

lemma rnd_between:
  assumes "of_int a \<le> x" "x \<le> of_int b" "\<bar>a\<bar> \<le> 2 ^ 53" "\<bar>b\<bar> \<le> 2 ^ 53"
  shows "\<exists>y. rnd x = Num y \<and> of_int a \<le> y \<and> y \<le> of_int b"
proof -
  have "num_le (rnd (of_int a)) (rnd x)" "num_le (rnd x) (rnd (of_int b))"
    using assms(1,2) by (simp_all add: rnd_mono)
  then have "num_le (Num (of_int a)) (rnd x)" "num_le (rnd x) (Num (of_int b))"
    using assms(3,4) by (simp_all add: rnd_of_int)
  then show ?thesis by (cases "rnd x") simp_all
qed

lemma timeMultiplier_range: "\<exists>m. timeMultiplier f = Num m \<and> 1 \<le> m \<and> m \<le> 11"
proof (cases "consumedDepositPercentage f")
  case None
  then show ?thesis by (simp add: timeMultiplier_def)
next
  case (Some p)
  show ?thesis
  proof (cases "truthy p \<and> num_less (Num 100) p")
    case False
    then show ?thesis using Some by (auto simp: timeMultiplier_def)
  next
    case True
    then obtain d where d: "math_min
        (fdiv (fdiv (fmul (fsub p (Num 100)) (Num 4)) (Num 100)) (Num 24)) (Num 10) = Num d"
        "0 \<le> d" "d \<le> 10"
      using days_range by blast
    have "\<exists>y. rnd (1 + d) = Num y \<and> of_int 1 \<le> y \<and> y \<le> of_int 11"
      using d(2,3) by (intro rnd_between) simp_all
    then show ?thesis using Some True d(1) by (simp add: timeMultiplier_def Let_def)
  qed
qed

lemma timeMultiplier_mono:
  assumes "consumedDepositPercentage f = Some p" "consumedDepositPercentage f' = Some q"
    "num_le p q"
  shows "num_le (timeMultiplier f) (timeMultiplier f')"
proof (cases "num_less (Num 100) p")
  case False
  then have "timeMultiplier f = Num 1" using assms(1) by (simp add: timeMultiplier_def)
  then show ?thesis using timeMultiplier_range [of f'] by auto
next
  case True
  then have q: "num_less (Num 100) q" using assms(3) by (cases p; cases q) simp_all
  have t: "truthy p" "truthy q" using True q by (cases p; simp; cases q; simp)+
  obtain d where d: "math_min
      (fdiv (fdiv (fmul (fsub p (Num 100)) (Num 4)) (Num 100)) (Num 24)) (Num 10) = Num d"
    using days_range [OF True] by blast
  obtain d' where d': "math_min
      (fdiv (fdiv (fmul (fsub q (Num 100)) (Num 4)) (Num 100)) (Num 24)) (Num 10) = Num d'"
    using days_range [OF q] by blast
  have "d \<le> d'" using days_mono [OF assms(3)] d d' by simp
  then have "num_le (rnd (1 + d)) (rnd (1 + d'))" by (simp add: rnd_mono)
  then show ?thesis
    using assms(1,2) True q t d d' by (simp add: timeMultiplier_def Let_def)
qed

lemma ceiling_percentage_monotone:
  assumes "num_le (Num 0) (baseMaxGasPrice g f)" "num_le p q"
  shows "num_le
    (calculateMaxGasPrice g (f\<lparr>consumedDepositPercentage := Some p\<rparr>))
    (calculateMaxGasPrice g (f\<lparr>consumedDepositPercentage := Some q\<rparr>))"
proof -
  let ?f = "f\<lparr>consumedDepositPercentage := Some p\<rparr>"
  let ?f' = "f\<lparr>consumedDepositPercentage := Some q\<rparr>"
  obtain m where m: "timeMultiplier ?f = Num m" "1 \<le> m"
    using timeMultiplier_range [of ?f] by blast
  obtain m' where m': "timeMultiplier ?f' = Num m'" "1 \<le> m'"
    using timeMultiplier_range [of ?f'] by blast
  have "num_le (timeMultiplier ?f) (timeMultiplier ?f')"
    using assms(2) by (intro timeMultiplier_mono) simp_all
  then have le: "m \<le> m'" using m m' by simp
  have "num_le (fmul (baseMaxGasPrice g f) (Num m)) (fmul (baseMaxGasPrice g f) (Num m'))"
  proof (cases "baseMaxGasPrice g f")
    case (Num b)
    then have "b * m \<le> b * m'" using assms(1) le by (simp add: mult_left_mono)
    then show ?thesis using Num by (simp add: rnd_mono)
  qed (use assms(1) m(2) m'(2) in auto)
  then show ?thesis
    using m(1) m'(1) by (simp add: calculateMaxGasPrice_def math_round_mono)
qed
text \<open>
  The numbers of the time multiplier at 155, 200 and 2000 percent, in the order of the
  operations of the program, and at 155 percent in the order \<open>(pct - 100) * 4 / (100 * 24)\<close>.
\<close>

lemma rnd_sixth: "rnd (1 / 6) = Num (6004799503160661 / 36028797018963968)"
  using rnd_at [of "- 3" "1 / 6"] by (simp add: round_half_even_def Let_def)

lemma rnd_mult200: "rnd (42033596522124629 / 36028797018963968) = Num (5254199565265579 / 4503599627370496)"
  using rnd_at [of 0 "42033596522124629 / 36028797018963968"] by (simp add: round_half_even_def Let_def)

lemma rnd_hours155: "rnd (11 / 5) = Num (2476979795053773 / 1125899906842624)"
  using rnd_at [of 1 "11 / 5"] by (simp add: round_half_even_def Let_def)

lemma rnd_days155: "rnd (825659931684591 / 9007199254740992) = Num (825659931684591 / 9007199254740992)"
  using rnd_at [of "- 4" "825659931684591 / 9007199254740992"] by (simp add: round_half_even_def Let_def)

lemma rnd_mult155: "rnd (9832859186425583 / 9007199254740992) = Num (614553699151599 / 562949953421312)"
  using rnd_at [of 0 "9832859186425583 / 9007199254740992"] by (simp add: round_half_even_def Let_def)

lemma rnd_claim155: "rnd (11 / 120) = Num (6605279453476727 / 72057594037927936)"
  using rnd_at [of "- 4" "11 / 120"] by (simp add: round_half_even_def Let_def)

lemma rnd_claimmult155: "rnd (78662873491404663 / 72057594037927936) = Num (4916429593212791 / 4503599627370496)"
  using rnd_at [of 0 "78662873491404663 / 72057594037927936"] by (simp add: round_half_even_def Let_def)

lemma rnd_days2000: "rnd (19 / 6) = Num (7130699410003285 / 2251799813685248)"
  using rnd_at [of 1 "19 / 6"] by (simp add: round_half_even_def Let_def)

lemma rnd_mult2000: "rnd (9382499223688533 / 2251799813685248) = Num (2345624805922133 / 562949953421312)"
  using rnd_at [of 2 "9382499223688533 / 2251799813685248"] by (simp add: round_half_even_def Let_def)

lemma rnd_ceiling2000: "rnd (7036874417766399 / 562949953421312) = Num (7036874417766399 / 562949953421312)"
  using rnd_at [of 3 "7036874417766399 / 562949953421312"] by (simp add: round_half_even_def Let_def)


text \<open>
  Claim C4, as stated, fails: at 155 percent the program divides 220 by 100 and the
  rounded quotient by 24, and its multiplier is 1.0916666666666668. The formula of the
  claim gives 131/120 in exact arithmetic, and 1.0916666666666666 when each of its
  operations is rounded.
\<close>

theorem timeMultiplier_counterexample:
  "timeMultiplier (example_flow ''0xaa'' 1 155) = Num (614553699151599 / 562949953421312)
   \<and> (614553699151599 / 562949953421312 :: rat) \<noteq> 1 + min ((155 - 100) * 4 / (100 * 24)) 10
   \<and> Num (614553699151599 / 562949953421312)
       \<noteq> fadd (Num 1)
           (math_min
              (fdiv (fmul (fsub (Num 155) (Num 100)) (Num 4)) (fmul (Num 100) (Num 24)))
              (Num 10))"
  by (simp add: policy_defs example_defs rnd_hours155 rnd_days155 rnd_mult155 rnd_claim155
      rnd_claimmult155)

lemma fsub_ge:
  assumes "num_le (Num c) a" "rnd (c - k) = Num (c - k)"
  shows "num_le (Num (c - k)) (fsub a (Num k))"
proof (cases a)
  case (Num x)
  then have "num_le (rnd (c - k)) (rnd (x - k))" using assms(1) by (simp add: rnd_mono)
  then show ?thesis using Num assms(2) by (simp add: fsub_def)
qed (use assms in \<open>simp_all add: fsub_def\<close>)

lemma fmul_ge:
  assumes "num_le (Num c) a" "0 < k" "rnd (c * k) = Num (c * k)"
  shows "num_le (Num (c * k)) (fmul a (Num k))"
proof (cases a)
  case (Num x)
  then have "num_le (rnd (c * k)) (rnd (x * k))"
    using assms(1,2) by (simp add: rnd_mono mult_right_mono)
  then show ?thesis using Num assms(3) by simp
qed (use assms in simp_all)

lemma fdiv_ge:
  assumes "num_le (Num c) a" "0 < k" "rnd (c / k) = Num (c / k)"
  shows "num_le (Num (c / k)) (fdiv a (Num k))"
proof (cases a)
  case (Num x)
  then have "num_le (rnd (c / k)) (rnd (x / k))"
    using assms(1,2) by (simp add: rnd_mono divide_right_mono)
  then show ?thesis using Num assms(2,3) by simp
qed (use assms in simp_all)

lemma timeMultiplier_capped:
  assumes "consumedDepositPercentage f = Some p" "num_le (Num 6100) p"
  shows "timeMultiplier f = Num 11"
proof -
  have t: "truthy p" "num_less (Num 100) p"
    using assms(2) by (cases p; simp)+
  have "num_le (Num (6100 - 100)) (fsub p (Num 100))"
    using assms(2) by (rule fsub_ge) simp
  then have "num_le (Num (6000 * 4)) (fmul (fsub p (Num 100)) (Num 4))"
    by (intro fmul_ge) simp_all
  then have "num_le (Num (24000 / 100)) (fdiv (fmul (fsub p (Num 100)) (Num 4)) (Num 100))"
    by (intro fdiv_ge) simp_all
  then have "num_le (Num (240 / 24))
      (fdiv (fdiv (fmul (fsub p (Num 100)) (Num 4)) (Num 100)) (Num 24))"
    by (intro fdiv_ge) simp_all
  then have "math_min (fdiv (fdiv (fmul (fsub p (Num 100)) (Num 4)) (Num 100)) (Num 24))
      (Num 10) = Num 10"
    by (cases "fdiv (fdiv (fmul (fsub p (Num 100)) (Num 4)) (Num 100)) (Num 24)")
      (auto simp: math_min_def)
  then show ?thesis using assms(1) t by (simp add: timeMultiplier_def)
qed

text \<open>
  Claim C4, amended. The time multiplier is 1 up to a consumed deposit percentage of 100.
  Above 100 it is the number that the operations of the program give in their order, each
  rounded to the nearest number: the percentage less 100, times 4, divided by 100, divided
  by 24, capped at 10, plus 1. At 200 it is the rounded sum of 1 and the rounded quotient
  of 4 and 24, and from 6100 on it is 11.
\<close>

theorem timeMultiplier_rounded:
  "consumedDepositPercentage f = Some p \<Longrightarrow>
   (num_le p (Num 100) \<longrightarrow> timeMultiplier f = Num 1)
   \<and> (num_less (Num 100) p \<longrightarrow>
        timeMultiplier f
          = fadd (Num 1)
              (math_min (fdiv (fdiv (fmul (fsub p (Num 100)) (Num 4)) (Num 100)) (Num 24))
                 (Num 10)))
   \<and> (p = Num 200 \<longrightarrow> timeMultiplier f = fadd (Num 1) (fdiv (Num 4) (Num 24)))
   \<and> (num_le (Num 6100) p \<longrightarrow> timeMultiplier f = Num 11)"
proof (intro conjI impI)
  assume p: "consumedDepositPercentage f = Some p"
  { assume "num_le p (Num 100)"
    then have "\<not> num_less (Num 100) p" by (cases p) simp_all
    then show "timeMultiplier f = Num 1" using p by (simp add: timeMultiplier_def) }
  { assume "num_less (Num 100) p"
    moreover from this have "truthy p" by (cases p) simp_all
    ultimately show "timeMultiplier f
        = fadd (Num 1)
            (math_min (fdiv (fdiv (fmul (fsub p (Num 100)) (Num 4)) (Num 100)) (Num 24))
               (Num 10))"
      using p by (simp add: timeMultiplier_def) }
  { assume "p = Num 200"
    then show "timeMultiplier f = fadd (Num 1) (fdiv (Num 4) (Num 24))"
      using p by (simp add: timeMultiplier_def fsub_def math_min_def rnd_sixth) }
  { assume "num_le (Num 6100) p"
    then show "timeMultiplier f = Num 11" using p by (simp add: timeMultiplier_capped) }
qed

theorem timeMultiplier_rounded_witness:
  "timeMultiplier (example_flow ''0xaa'' 1 100) = Num 1
   \<and> timeMultiplier (example_flow ''0xaa'' 1 1300) = Num 3
   \<and> timeMultiplier (example_flow ''0xaa'' 1 200)
       = Num (5254199565265579 / 4503599627370496)
   \<and> timeMultiplier (example_flow ''0xaa'' 1 7300) = Num 11"
  using timeMultiplier_rounded [of "example_flow ''0xaa'' 1 100" "Num 100"]
    timeMultiplier_rounded [of "example_flow ''0xaa'' 1 1300" "Num 1300"]
    timeMultiplier_rounded [of "example_flow ''0xaa'' 1 200" "Num 200"]
    timeMultiplier_rounded [of "example_flow ''0xaa'' 1 7300" "Num 7300"]
  by (simp add: example_flow_def fsub_def math_min_def rnd_sixth rnd_mult200)

text \<open>
  Claim C5. For a flow whose token has no entry in the price table, the ceiling is the
  product of the fallback limit and the time multiplier, rounded to the nearest integer,
  whatever the flow rate is.
\<close>

theorem unknown_price_fallback:
  "tokenPrices g (token f) = None \<Longrightarrow>
   calculateMaxGasPrice g (f\<lparr>flowrate := r\<rparr>)
     = math_round (fmul (fallbackGasPriceLimit g) (timeMultiplier f))"
  by (simp add: calculateMaxGasPrice_def baseMaxGasPrice_def dailyNFR_def)

lemma timeMultiplier_2000:
  "timeMultiplier (example_flow t r 2000) = Num (2345624805922133 / 562949953421312)"
  by (simp add: policy_defs example_flow_def rnd_days2000 rnd_mult2000)

lemma small_limits_fields:
  "fallbackGasPriceLimit small_limits = Num 3" "minGasPriceLimit small_limits = Num 1"
  "referenceGasPriceLimit small_limits = Num 3"
  "tokenPrices small_limits = [''0xaa'' \<mapsto> Num 2, ''0xdd'' \<mapsto> rnd (1 / 1000000)]"
  by (simp_all add: small_limits_def example_graphinator_def)

lemma example_flow_fields:
  "token (example_flow t r p) = t" "agreementType (example_flow t r p) = 0"
  "sender (example_flow t r p) = ''0x01''" "receiver (example_flow t r p) = ''0x02''"
  "flowrate (example_flow t r p) = r"
  "consumedDepositPercentage (example_flow t r p) = Some (Num p)"
  "(example_flow t r p)\<lparr>flowrate := r'\<rparr> = example_flow t r' p"
  by (simp_all add: example_flow_def)

theorem unknown_price_fallback_witness:
  "calculateMaxGasPrice small_limits (example_flow ''0xcc'' 123456 2000) = Num 12
   \<and> calculateMaxGasPrice small_limits (example_flow ''0xcc'' 5 2000) = Num 12"
proof -
  have unknown: "tokenPrices small_limits (token (example_flow ''0xcc'' 5 2000)) = None"
    by (simp add: small_limits_fields example_flow_fields)
  have "calculateMaxGasPrice small_limits (example_flow ''0xcc'' 5 2000\<lparr>flowrate := r\<rparr>)
      = Num 12" for r
    using unknown_price_fallback [OF unknown, of r]
    by (simp add: small_limits_fields timeMultiplier_2000 rnd_ceiling2000)
  from this [of 123456] this [of 5] show ?thesis
    by (simp add: example_flow_fields)
qed



lemma rnd_mult2000_kept: "rnd (2345624805922133 / 562949953421312) = Num (2345624805922133 / 562949953421312)"
  using rnd_at [of 2 "2345624805922133 / 562949953421312"] by (simp add: round_half_even_def Let_def)

text \<open>
  At the price 0 the formula for a known price, had it been applied, would have given the
  minimum limit as the base, and a ceiling of 4 in place of 12.
\<close>

lemma known_price_formula_at_zero:
  "math_round
     (fmul
        (math_max (minGasPriceLimit small_limits)
           (math_round
              (fdiv
                 (fmul (math_round (fmul (fmul (number_of_bigint 1000000) (Num 86400))
                    (Num 0))) (referenceGasPriceLimit small_limits))
                 refDailyNFR)))
        (timeMultiplier (example_flow ''0xaa'' 1000000 2000))) = Num 4"
  by (simp add: small_limits_fields timeMultiplier_2000 refDailyNFR_def math_max_def
      rnd_mult2000_kept)


section \<open>Selection of the batches\<close>

lemma num_le_total: "a \<noteq> NaN \<Longrightarrow> b \<noteq> NaN \<Longrightarrow> \<not> num_less a b \<Longrightarrow> num_le b a"
  by (cases a; cases b) simp_all

lemma num_le_NaN [simp]: "\<not> num_le a NaN" "\<not> num_le NaN a"
  by (cases a; simp)+

lemma whole_not_NaN: "whole a \<Longrightarrow> a \<noteq> NaN"
  by (auto simp: whole_def)

lemma whole_math_round: "a \<noteq> NaN \<Longrightarrow> whole (math_round a)"
  by (cases a) (simp_all add: whole_def)

text \<open>A ceiling that passes the filter is a number, and then an integer or an infinity.\<close>

lemma whole_ceiling:
  assumes "num_le p (calculateMaxGasPrice g f)"
  shows "whole (calculateMaxGasPrice g f)"
proof -
  have "calculateMaxGasPrice g f \<noteq> NaN" using assms by auto
  then have "fmul (baseMaxGasPrice g f) (timeMultiplier f) \<noteq> NaN"
    by (auto simp: calculateMaxGasPrice_def)
  then show ?thesis
    unfolding calculateMaxGasPrice_def by (rule whole_math_round)
qed

lemma rnd_int_positive: "num_less (Num 0) (rnd (of_int d)) \<longleftrightarrow> 0 < d"
proof
  assume "0 < d"
  then have "(1 :: rat) \<le> of_int d" by simp
  then have "num_le (rnd 1) (rnd (of_int d))" by (rule rnd_mono)
  then show "num_less (Num 0) (rnd (of_int d))"
    by (cases "rnd (of_int d)") simp_all
next
  assume h: "num_less (Num 0) (rnd (of_int d))"
  show "0 < d"
  proof (rule ccontr)
    assume "\<not> 0 < d"
    then have "(of_int d :: rat) \<le> 0" by simp
    then have "num_le (rnd (of_int d)) (rnd 0)" by (rule rnd_mono)
    then show False using h by (cases "rnd (of_int d)") simp_all
  qed
qed

text \<open>
  On integers and infinities the comparator of the sort is above zero exactly when its
  first argument has the lower ceiling: the difference of two integers may be rounded,
  and keeps its sign.
\<close>

lemma comparator_sign:
  assumes "whole a" "whole b"
  shows "num_less (Num 0) (fsub b a) \<longleftrightarrow> num_less a b"
proof (cases a)
  case a: (Num x)
  show ?thesis
  proof (cases b)
    case b: (Num y)
    have "\<exists>i. x = of_int i" "\<exists>j. y = of_int j"
      using assms a b by (simp_all add: whole_def)
    then obtain i j where x: "x = of_int i" and y: "y = of_int j" by blast
    have "y + - x = of_int (j - i)"
      using x y by simp
    then have "num_less (Num 0) (fsub b a) \<longleftrightarrow> 0 < j - i"
      using rnd_int_positive [of "j - i"] by (simp add: fsub_def a b)
    also have "\<dots> \<longleftrightarrow> x < y"
      using x y by simp
    finally show ?thesis by (simp add: a b)
  qed (use assms a in \<open>simp_all add: fsub_def whole_def\<close>)
qed (use assms in \<open>cases b; simp add: fsub_def whole_def\<close>)+

lemma insert_sorted_set [simp]: "set (insert_sorted cmp x ys) = insert x (set ys)"
  by (induction ys) auto

lemma insert_sorted_length [simp]: "length (insert_sorted cmp x ys) = Suc (length ys)"
  by (induction ys) auto

lemma array_sort_set [simp]: "set (array_sort cmp xs) = set xs"
  by (induction xs) (simp_all add: array_sort_def)

lemma array_sort_length [simp]: "length (array_sort cmp xs) = length xs"
  by (induction xs) (simp_all add: array_sort_def)

lemma insert_sorted_sorted:
  assumes "whole (key x)" "\<forall>y \<in> set ys. whole (key y)"
    "sorted_wrt (\<lambda>a b. num_le (key b) (key a)) ys"
  shows "sorted_wrt (\<lambda>a b. num_le (key b) (key a))
           (insert_sorted (\<lambda>a b. fsub (key b) (key a)) x ys)"
  using assms(2,3)
proof (induction ys)
  case Nil
  then show ?case by simp
next
  case (Cons y ys)
  have wy: "whole (key y)" using Cons.prems(1) by simp
  have sign: "num_less (Num 0) (fsub (key y) (key x)) \<longleftrightarrow> num_less (key x) (key y)"
    using assms(1) wy by (rule comparator_sign)
  show ?case
  proof (cases "num_less (key x) (key y)")
    case True
    then have "num_le (key x) (key y)" by (rule num_less_imp_le)
    then show ?thesis
      using True sign Cons by auto
  next
    case False
    then have xy: "num_le (key y) (key x)"
      using assms(1) wy by (simp add: num_le_total whole_not_NaN)
    have "num_le (key z) (key x)" if "z \<in> set ys" for z
    proof -
      have "num_le (key z) (key y)" using Cons.prems(2) that by simp
      then show ?thesis using xy by (rule num_le_trans)
    qed
    then show ?thesis
      using False sign xy Cons.prems(2) by auto
  qed
qed

lemma array_sort_sorted:
  assumes "\<forall>x \<in> set xs. whole (key x)"
  shows "sorted_wrt (\<lambda>a b. num_le (key b) (key a))
           (array_sort (\<lambda>a b. fsub (key b) (key a)) xs)"
  using assms
proof (induction xs)
  case Nil
  then show ?case by (simp add: array_sort_def)
next
  case (Cons x xs)
  have "sorted_wrt (\<lambda>a b. num_le (key b) (key a))
          (insert_sorted (\<lambda>a b. fsub (key b) (key a)) x
             (array_sort (\<lambda>a b. fsub (key b) (key a)) xs))"
    using Cons by (intro insert_sorted_sorted) simp_all
  then show ?case by (simp add: array_sort_def)
qed

lemma flowsWorthLiquidating_set:
  "set (flowsWorthLiquidating g fs p) = {f \<in> set fs. num_le p (calculateMaxGasPrice g f)}"
  by (auto simp: flowsWorthLiquidating_def)

lemma flowsWorthLiquidating_length: "length (flowsWorthLiquidating g fs p) \<le> length fs"
  by (simp add: flowsWorthLiquidating_def)

lemma flowsWorthLiquidating_sorted:
  "sorted_wrt (\<lambda>a b. num_le (calculateMaxGasPrice g b) (calculateMaxGasPrice g a))
     (flowsWorthLiquidating g fs p)"
  unfolding flowsWorthLiquidating_def
  by (rule array_sort_sorted) (auto intro: whole_ceiling)

text \<open>The bounds of \<^verbatim>\<open>slice\<close> at the indices that the loop reaches.\<close>

lemma to_integer_of_int [simp]: "to_integer (of_int k) = k"
  by (simp add: to_integer_def)

lemma relative_index_int: "0 \<le> k \<Longrightarrow> relative_index len (Num (of_int k)) = min (nat k) len"
  by (simp add: relative_index_def)

lemma relative_index_nat: "relative_index len (Num (of_nat k)) = min k len"
  using relative_index_int [of "int k" len] by simp

lemma relative_index_beyond:
  assumes "num_le (Num (of_nat len)) b"
  shows "relative_index len b = len"
proof (cases b)
  case (Num y)
  then have y: "of_nat len \<le> y" using assms by simp
  then have "0 \<le> y" by (rule order_trans [rotated]) simp
  moreover have "int len \<le> \<lfloor>y\<rfloor>" using y by (simp add: le_floor_iff)
  moreover have "len \<le> nat \<lfloor>y\<rfloor>" using \<open>int len \<le> \<lfloor>y\<rfloor>\<close> by simp
  ultimately show ?thesis
    using Num by (simp add: relative_index_def to_integer_def min_def Let_def)
qed (use assms in \<open>simp_all add: relative_index_def\<close>)

lemma slice_step:
  assumes "0 \<le> i" "i < int (length xs)" "0 < n"
  shows "slice xs (Num (of_int i)) (Num (of_int (i + n))) = take (nat n) (drop (nat i) xs)"
proof -
  obtain k where k: "i = int k" using assms(1) by (metis nat_0_le)
  obtain m where m: "n = int m" using assms(3) by (metis nat_0_le less_imp_le)
  have less: "k < length xs" using assms(2) k by simp
  have "slice xs (Num (of_nat k)) (Num (of_nat (k + m)))
      = take (min (k + m) (length xs) - k) (drop k xs)"
    using less by (simp add: slice_def Let_def relative_index_nat del: of_nat_add)
  also have "\<dots> = take m (drop k xs)"
    using less by (cases "k + m \<le> length xs") (simp_all add: min_def)
  finally show ?thesis by (simp add: k m)
qed

text \<open>
  With a size that is a positive integer the loop ends on every array, whose length is
  below \<open>2\<^sup>3\<^sup>2\<close>: it adds chunks that are not empty and not longer than the size, and
  that make up the rest of the array from the index on. Up to the size \<open>2\<^sup>5\<^sup>2\<close> the
  indices are integers that the additions do not round.
\<close>

lemma chunk_loop_total:
  assumes "0 < n" "n \<le> 2 ^ 52" "int (length xs) < 2 ^ 32" "0 \<le> i"
  shows "\<exists>cs. chunk_loop xs (Num (of_int n)) (Num (of_int i)) acc = Some (acc @ cs)
           \<and> concat cs = drop (nat i) xs
           \<and> (\<forall>c \<in> set cs. c \<noteq> [] \<and> int (length c) \<le> n)"
  using assms(4)
proof (induction "nat (int (length xs) - i)" arbitrary: i acc rule: less_induct)
  case less
  show ?case
  proof (cases "i < int (length xs)")
    case False
    then show ?thesis
      using less.prems by (subst chunk_loop.simps) simp
  next
    case True
    have "\<bar>i + n\<bar> \<le> 2 ^ 53"
      using True less.prems assms(1,2,3) by simp
    then have "rnd (of_int (i + n)) = Num (of_int (i + n))"
      by (rule rnd_of_int)
    then have next_i: "fadd (Num (of_int i)) (Num (of_int n)) = Num (of_int (i + n))"
      by simp
    let ?c = "slice xs (Num (of_int i)) (Num (of_int (i + n)))"
    have c: "?c = take (nat n) (drop (nat i) xs)"
      using slice_step [OF less.prems True assms(1)] .
    have "nat (int (length xs) - (i + n)) < nat (int (length xs) - i)"
      using True assms(1) by simp
    moreover have "0 \<le> i + n" using less.prems assms(1) by simp
    ultimately obtain cs where
      cs: "chunk_loop xs (Num (of_int n)) (Num (of_int (i + n))) (acc @ [?c])
             = Some ((acc @ [?c]) @ cs)"
        "concat cs = drop (nat (i + n)) xs"
        "\<forall>c \<in> set cs. c \<noteq> [] \<and> int (length c) \<le> n"
      using less.hyps [of "i + n" "acc @ [?c]"] by blast
    have "chunk_loop xs (Num (of_int n)) (Num (of_int i)) acc = Some (acc @ (?c # cs))"
      using True cs(1) next_i by (subst chunk_loop.simps) simp
    moreover have "concat (?c # cs) = drop (nat i) xs"
    proof -
      have "nat (i + n) = nat n + nat i"
        using less.prems assms(1) by (simp add: nat_add_distrib)
      moreover have "take (nat n) (drop (nat i) xs) @ drop (nat n) (drop (nat i) xs)
          = drop (nat i) xs"
        by (rule append_take_drop_id)
      ultimately show ?thesis using c cs(2) by simp
    qed
    moreover have "?c \<noteq> []" using c True less.prems assms(1) by simp
    moreover have "int (length ?c) \<le> n" using c assms(1) by simp
    ultimately show ?thesis using cs(3) by auto
  qed
qed

text \<open>A larger size takes the whole array as the one chunk.\<close>

lemma chunkArray_large:
  assumes "2 ^ 52 < n" "int (length xs) < 2 ^ 32"
  shows "chunkArray xs (Num (of_int n)) = Some (if xs = [] then [] else [xs])"
proof (cases "xs = []")
  case True
  then show ?thesis
    by (simp add: chunkArray_def) (subst chunk_loop.simps, simp)
next
  case False
  define b where "b = rnd (of_int n)"
  have "(of_int (2 ^ 52) :: rat) \<le> of_int n"
    using assms(1) by (simp only: of_int_le_iff)
  then have "num_le (rnd (of_int (2 ^ 52))) (rnd (of_int n))" by (rule rnd_mono)
  moreover have "rnd (of_int (2 ^ 52)) = Num (of_int (2 ^ 52))"
    by (rule rnd_of_int) simp
  ultimately have big: "num_le (Num (2 ^ 52)) b" by (simp add: b_def)
  have "(of_nat (length xs) :: rat) \<le> 2 ^ 52"
  proof -
    have "int (length xs) \<le> 2 ^ 52" using assms(2) by simp
    then have "(of_int (int (length xs)) :: rat) \<le> of_int (2 ^ 52)"
      by (simp only: of_int_le_iff)
    then show ?thesis by simp
  qed
  then have le: "num_le (Num (of_nat (length xs))) (Num (2 ^ 52))" by simp
  have beyond: "num_le (Num (of_nat (length xs))) b"
    using le big by (rule num_le_trans)
  then have stop: "\<not> num_less b (Num (of_nat (length xs)))"
    by (cases b) simp_all
  have "relative_index (length xs) b = length xs"
    using beyond by (rule relative_index_beyond)
  then have c: "slice xs (Num 0) b = xs"
    by (simp add: slice_def relative_index_def to_integer_def)
  have "chunk_loop xs (Num (of_int n)) b [xs] = Some [xs]"
    using stop by (subst chunk_loop.simps) simp
  then have "chunk_loop xs (Num (of_int n)) (Num 0) [] = Some [xs]"
    using False c by (subst chunk_loop.simps) (simp add: b_def)
  then show ?thesis using False by (simp add: chunkArray_def)
qed

lemma chunkArray_total:
  assumes "0 < n" "int (length xs) < 2 ^ 32"
  shows "\<exists>cs. chunkArray xs (Num (of_int n)) = Some cs \<and> concat cs = xs
           \<and> (\<forall>c \<in> set cs. c \<noteq> [] \<and> int (length c) \<le> n)"
proof (cases "n \<le> 2 ^ 52")
  case True
  show ?thesis
    using chunk_loop_total [OF assms(1) True assms(2), of 0 "[]"]
    by (simp add: chunkArray_def)
next
  case False
  then have "chunkArray xs (Num (of_int n)) = Some (if xs = [] then [] else [xs])"
    using assms(2) by (intro chunkArray_large) simp_all
  moreover have "int (length xs) \<le> n" using False assms(2) by simp
  ultimately show ?thesis by simp
qed

text \<open>
  With a size that is not above zero the loop never ends on an array that is not empty:
  the index does not get above zero.
\<close>

lemma fadd_nonpos:
  assumes "num_le a (Num 0)" "num_le b (Num 0)"
  shows "num_le (fadd a b) (Num 0)"
proof (cases a)
  case a: (Num x)
  show ?thesis
  proof (cases b)
    case b: (Num y)
    have "x + y \<le> 0" using assms a b by simp
    then have "num_le (rnd (x + y)) (rnd 0)" by (rule rnd_mono)
    then show ?thesis by (simp add: a b)
  qed (use assms a in simp_all)
qed (use assms in \<open>cases b; simp\<close>)+

lemma chunk_loop_returns:
  assumes "chunk_loop xs sz i acc = Some y"
  shows "\<not> (num_le sz (Num 0) \<and> num_le i (Num 0) \<and> xs \<noteq> [])"
proof (rule chunk_loop.raw_induct
    [where P = "\<lambda>xs sz i acc y. \<not> (num_le sz (Num 0) \<and> num_le i (Num 0) \<and> xs \<noteq> [])",
      OF _ assms])
  fix loop :: "'a list \<Rightarrow> number \<Rightarrow> number \<Rightarrow> 'a list list \<Rightarrow> 'a list list option"
    and xs sz i acc y
  assume IH: "\<And>a b c d y. loop a b c d = Some y
      \<Longrightarrow> \<not> (num_le b (Num 0) \<and> num_le c (Num 0) \<and> a \<noteq> [])"
    and eq: "(if num_less i (Num (of_nat (length xs)))
              then loop xs sz (fadd i sz) (acc @ [slice xs i (fadd i sz)])
              else Some acc) = Some y"
  show "\<not> (num_le sz (Num 0) \<and> num_le i (Num 0) \<and> xs \<noteq> [])"
  proof
    assume h: "num_le sz (Num 0) \<and> num_le i (Num 0) \<and> xs \<noteq> []"
    then have "0 < length xs" by simp
    then have pos: "(0 :: rat) < of_nat (length xs)" by (simp only: of_nat_0_less_iff)
    have "num_less i (Num (of_nat (length xs)))"
    proof (cases i)
      case (Num x)
      then have "x \<le> 0" using h by simp
      then have "x < of_nat (length xs)" using pos by (rule le_less_trans)
      then show ?thesis using Num by simp
    qed (use h in simp_all)
    then have "loop xs sz (fadd i sz) (acc @ [slice xs i (fadd i sz)]) = Some y"
      using eq by simp
    then have "\<not> (num_le sz (Num 0) \<and> num_le (fadd i sz) (Num 0) \<and> xs \<noteq> [])"
      by (rule IH)
    then show False using h fadd_nonpos [of i sz] by simp
  qed
qed

lemma chunkArray_hangs: "num_le sz (Num 0) \<Longrightarrow> xs \<noteq> [] \<Longrightarrow> chunkArray xs sz = None"
  using chunk_loop_returns [of xs sz "Num 0" "[]"]
  by (cases "chunkArray xs sz") (auto simp: chunkArray_def)


text \<open>
  The numbers of the examples: the daily values of the flows of the scenario, and a batch
  size of one and a half.
\<close>

lemma rnd_three_halves: "rnd (3 / 2) = Num (3 / 2)"
  using rnd_at [of 0 "3 / 2"] by (simp add: round_half_even_def Let_def)


lemma rnd_two_dollars_perday: "rnd (999999999999993600) = Num (999999999999993600)"
  using rnd_at [of 59 "999999999999993600"] by (simp add: round_half_even_def Let_def)

lemma rnd_two_dollars_usd: "rnd (1999999999999987200) = Num (1999999999999987200)"
  using rnd_at [of 60 "1999999999999987200"] by (simp add: round_half_even_def Let_def)

lemma rnd_two_dollars_scaled: "rnd (1999999999999987200000000000) = Num (1999999999999987107313483776)"
  using rnd_at [of 90 "1999999999999987200000000000"] by (simp add: round_half_even_def Let_def)

lemma rnd_two_dollars_limit: "rnd (7629394531249950818304 / 3814697265625) = Num (4194303999999973 / 2097152)"
  using rnd_at [of 30 "7629394531249950818304 / 3814697265625"] by (simp add: round_half_even_def Let_def)

lemma rnd_half_dollar_perday: "rnd (249999999999955200) = Num (249999999999955200)"
  using rnd_at [of 57 "249999999999955200"] by (simp add: round_half_even_def Let_def)

lemma rnd_half_dollar_usd: "rnd (499999999999910400) = Num (499999999999910400)"
  using rnd_at [of 58 "499999999999910400"] by (simp add: round_half_even_def Let_def)

lemma rnd_half_dollar_scaled: "rnd (499999999999910400000000000) = Num (499999999999910396446113792)"
  using rnd_at [of 88 "499999999999910400000000000"] by (simp add: round_half_even_def Let_def)

lemma rnd_half_dollar_limit: "rnd (1907348632812158189568 / 3814697265625) = Num (8388607999998497 / 16777216)"
  using rnd_at [of 28 "1907348632812158189568 / 3814697265625"] by (simp add: round_half_even_def Let_def)



lemma scenario_ceilings:
  "calculateMaxGasPrice example_graphinator (example_flow ''0xaa'' 11574074074074 100)
     = Num 2000000000"
  "calculateMaxGasPrice example_graphinator (example_flow ''0xaa'' 2893518518518 100)
     = Num 500000000"
  "calculateMaxGasPrice example_graphinator (example_flow ''0xcc'' r 100)
     = Num 10000000000"
  by (simp_all add: policy_defs example_defs rnd_two_dollars_perday rnd_two_dollars_usd
      rnd_two_dollars_scaled rnd_two_dollars_limit rnd_half_dollar_perday
      rnd_half_dollar_usd rnd_half_dollar_scaled rnd_half_dollar_limit)

lemma example_fields:
  "batchSize example_graphinator = Num 2"
  "gasMultiplier example_graphinator = rnd (12 / 10)"
  "isListed example_graphinator = True"
  "depositConsumedPctThreshold example_graphinator = Num 20"
  by (simp_all add: example_graphinator_def)

lemma fractional_batches_ceiling [simp]:
  "calculateMaxGasPrice fractional_batches f = calculateMaxGasPrice example_graphinator f"
  by (simp add: fractional_batches_def calculateMaxGasPrice_def baseMaxGasPrice_def
      dailyNFR_def split: option.split)

lemma fractional_batches_size: "batchSize fractional_batches = Num (3 / 2)"
  by (simp add: fractional_batches_def)

text \<open>
  Claim C6, as stated for every batch size, fails. With a batch size of one and a half
  the loop of \<^verbatim>\<open>_chunkArray\<close> cuts the array at the indices 0, 1.5 and 3, and
  \<^verbatim>\<open>slice\<close> truncates its bounds: three flows that pass the filter come out as a batch of
  one flow and a batch of two flows, and two is more than the batch size.
\<close>

theorem select_counterexample:
  "batchSize fractional_batches = Num (3 / 2)
   \<and> select fractional_batches three_flows (Num 900000000)
       = Some [[example_flow ''0xcc'' 5 100],
               [example_flow ''0xcc'' 6 100, example_flow ''0xcc'' 7 100]]
   \<and> \<not> num_le (Num (of_nat (length [example_flow ''0xcc'' 6 100,
                                      example_flow ''0xcc'' 7 100])))
         (batchSize fractional_batches)"
  by (simp add: select_def flowsWorthLiquidating_def three_flows_def scenario_ceilings
      array_sort_def fsub_def chunkArray_def chunk_loop.simps slice_def Let_def
      relative_index_def to_integer_def fractional_batches_size rnd_three_halves)

text \<open>A batch size of zero keeps the loop of \<^verbatim>\<open>_chunkArray\<close> from ending.\<close>

lemma zero_batch_size_hangs:
  "select (example_graphinator\<lparr>batchSize := Num 0\<rparr>) three_flows (Num 900000000) = None"
proof -
  have "calculateMaxGasPrice (example_graphinator\<lparr>batchSize := Num 0\<rparr>) f
      = calculateMaxGasPrice example_graphinator f" for f
    by (simp add: calculateMaxGasPrice_def baseMaxGasPrice_def dailyNFR_def
        split: option.split)
  then have "flowsWorthLiquidating (example_graphinator\<lparr>batchSize := Num 0\<rparr>) three_flows
      (Num 900000000) \<noteq> []"
    by (simp add: flowsWorthLiquidating_def three_flows_def scenario_ceilings
        array_sort_def)
  then show ?thesis
    by (simp add: select_def chunkArray_hangs)
qed

text \<open>
  Claim C6, amended. For every list of flows, whose length is below \<open>2\<^sup>3\<^sup>2\<close> as that of
  every array, every current gas price and every batch size that is a positive integer,
  the selection returns batches: every flow of every batch has a ceiling of at least the
  current gas price, the flows of the batches in sequence are in non-increasing order of
  their ceilings, and no batch has more flows than the batch size. The batches hold the
  filtered, sorted flows, none lost and none added.
\<close>

theorem select_batches:
  assumes "batchSize g = Num (of_int n)" "0 < n" "length flows < 2 ^ 32"
  shows "\<exists>batches. select g flows currentGasPrice = Some batches
     \<and> (\<forall>batch \<in> set batches. \<forall>f \<in> set batch.
          num_le currentGasPrice (calculateMaxGasPrice g f))
     \<and> sorted_wrt (\<lambda>a b. num_le (calculateMaxGasPrice g b) (calculateMaxGasPrice g a))
          (concat batches)
     \<and> (\<forall>batch \<in> set batches. num_le (Num (of_nat (length batch))) (batchSize g))
     \<and> concat batches = flowsWorthLiquidating g flows currentGasPrice"
proof -
  let ?fs = "flowsWorthLiquidating g flows currentGasPrice"
  have "length ?fs < 2 ^ 32"
    using flowsWorthLiquidating_length [of g flows currentGasPrice] assms(3) by simp
  then have "int (length ?fs) < 2 ^ 32"
    by (metis of_nat_less_iff of_nat_numeral of_nat_power)
  then obtain cs where
    cs: "chunkArray ?fs (Num (of_int n)) = Some cs" "concat cs = ?fs"
      "\<forall>c \<in> set cs. c \<noteq> [] \<and> int (length c) \<le> n"
    using chunkArray_total [OF assms(2)] by blast
  have "\<forall>batch \<in> set cs. \<forall>f \<in> set batch. num_le currentGasPrice (calculateMaxGasPrice g f)"
  proof (intro ballI)
    fix batch f assume "batch \<in> set cs" "f \<in> set batch"
    then have "f \<in> set (concat cs)" by auto
    then show "num_le currentGasPrice (calculateMaxGasPrice g f)"
      using cs(2) flowsWorthLiquidating_set [of g flows currentGasPrice] by simp
  qed
  moreover have "\<forall>batch \<in> set cs. num_le (Num (of_nat (length batch))) (batchSize g)"
  proof
    fix batch assume "batch \<in> set cs"
    then have "int (length batch) \<le> n" using cs(3) by simp
    then have "(of_int (int (length batch)) :: rat) \<le> of_int n"
      by (simp only: of_int_le_iff)
    then show "num_le (Num (of_nat (length batch))) (batchSize g)"
      using assms(1) by simp
  qed
  ultimately show ?thesis
    using cs(1,2) assms(1) flowsWorthLiquidating_sorted [of g flows currentGasPrice]
    by (simp add: select_def)
qed

lemma scenario_select:
  "select example_graphinator scenario_flows (Num 900000000)
   = Some [[example_flow ''0xcc'' 5 100, example_flow ''0xaa'' 11574074074074 100]]"
  by (simp add: select_def flowsWorthLiquidating_def scenario_flows_def scenario_ceilings
      array_sort_def fsub_def chunkArray_def chunk_loop.simps slice_def Let_def
      relative_index_def to_integer_def example_fields)

theorem select_batches_witness:
  "batchSize example_graphinator = Num (of_int 2) \<and> (0 :: int) < 2
   \<and> length scenario_flows < 2 ^ 32
   \<and> select example_graphinator scenario_flows (Num 900000000)
       = Some [[example_flow ''0xcc'' 5 100, example_flow ''0xaa'' 11574074074074 100]]
   \<and> flowsWorthLiquidating example_graphinator scenario_flows (Num 900000000)
       = [example_flow ''0xcc'' 5 100, example_flow ''0xaa'' 11574074074074 100]"
  using select_batches [of example_graphinator 2 scenario_flows "Num 900000000"]
    scenario_select
  by (auto simp: example_fields scenario_flows_def)

section \<open>What a program adds to the events\<close>

lemma emits_ret: "emits P (ret x)"
  by (simp add: emits_def ret_def)

lemma emits_throw: "emits P (throw e)"
  by (simp add: emits_def throw_def)

lemma emits_hang: "emits P hang"
  by (simp add: emits_def hang_def)

lemma emits_emit: "P ev \<Longrightarrow> emits P (emit ev)"
  by (simp add: emits_def emit_def)

lemma emits_await: "P ev \<Longrightarrow> emits P (await ev call)"
  by (simp add: emits_def await_def split: sum.split)

lemma emits_bind:
  assumes "emits P m" and "\<And>x. emits P (k x)"
  shows "emits P (bind m k)"
  unfolding emits_def
proof
  fix h
  obtain evs where m: "snd (m h) = h @ evs" "list_all P evs"
    using assms(1) by (auto simp: emits_def)
  show "\<exists>evs. snd (bind m k h) = h @ evs \<and> list_all P evs"
  proof (cases "m h")
    case (Pair r h')
    then have h': "h' = h @ evs" using m(1) by simp
    show ?thesis
    proof (cases r)
      case (Returned x)
      obtain evs' where "snd (k x h') = h' @ evs'" "list_all P evs'"
        using assms(2) [of x] by (auto simp: emits_def)
      then have "snd (bind m k h) = h @ (evs @ evs') \<and> list_all P (evs @ evs')"
        using Pair Returned h' m(2) by (simp add: bind_def)
      then show ?thesis by blast
    next
      case (Thrown e)
      then show ?thesis using Pair h' m(2) by (auto simp: bind_def)
    next
      case Hangs
      then show ?thesis using Pair h' m(2) by (auto simp: bind_def)
    qed
  qed
qed

lemma emits_try_catch:
  assumes "emits P m" and "\<And>e. emits P (handler e)"
  shows "emits P (try_catch m handler)"
  unfolding emits_def
proof
  fix h
  obtain evs where m: "snd (m h) = h @ evs" "list_all P evs"
    using assms(1) by (auto simp: emits_def)
  show "\<exists>evs. snd (try_catch m handler h) = h @ evs \<and> list_all P evs"
  proof (cases "m h")
    case (Pair r h')
    then have h': "h' = h @ evs" using m(1) by simp
    show ?thesis
    proof (cases r)
      case (Thrown e)
      obtain evs' where "snd (handler e h') = h' @ evs'" "list_all P evs'"
        using assms(2) [of e] by (auto simp: emits_def)
      then have "snd (try_catch m handler h) = h @ (evs @ evs') \<and> list_all P (evs @ evs')"
        using Pair Thrown h' m(2) by (simp add: try_catch_def)
      then show ?thesis by blast
    next
      case (Returned x)
      then show ?thesis using Pair h' m(2) by (auto simp: try_catch_def)
    next
      case Hangs
      then show ?thesis using Pair h' m(2) by (auto simp: try_catch_def)
    qed
  qed
qed

lemma emits_for_each:
  "(\<And>x. emits P (body x)) \<Longrightarrow> emits P (for_each xs body)"
  by (induction xs) (simp_all add: emits_ret emits_bind)

lemma emits_generate:
  "P (EncodeFunctionData tok (map (\<lambda>f. (agreementType f, sender f, receiver f)) flows)) \<Longrightarrow>
   P GetAddress \<Longrightarrow> emits P (generateBatchLiquidationTxData w tok flows)"
  by (simp add: generateBatchLiquidationTxData_def Let_def emits_throw emits_bind
      emits_await emits_ret)

lemma emits_estimate:
  "P (EstimateGas (snd txData) (fst txData)) \<Longrightarrow> emits P (estimateGasLimit w g txData)"
  by (simp add: estimateGasLimit_def emits_bind emits_await emits_ret)

lemmas emits_intros = emits_ret emits_throw emits_hang emits_emit emits_await emits_bind
  emits_try_catch emits_for_each emits_generate emits_estimate

lemmas run_defs = bind_def await_def emit_def ret_def throw_def try_catch_def hang_def
  processAll_def getSuperTokens_def processToken_def liquidateFlows_def liquidateChunks_def
  batchLiquidateFlows_def submit_def generateBatchLiquidationTxData_def estimateGasLimit_def
  dry_run_def number_of_gasPrice_def select_def flowsWorthLiquidating_def
  chunkArray_def slice_def relative_index_def to_integer_def array_sort_def fsub_def Let_def

section \<open>Failures of a batch\<close>




lemma batchLiquidateFlows_submitted:
  "fst (submit w g tok flows p h) = Returned () \<Longrightarrow>
   batchLiquidateFlows w g tok flows p h = submit w g tok flows p h"
  by (cases "submit w g tok flows p h") (simp add: batchLiquidateFlows_def try_catch_def)








text \<open>
  The numbers of the examples: the ceiling of a flow at 200 percent, the gas multipliers
  1.2 and 1.15 and the gas limits they give for an estimate of 100000, the gas price of a
  batch at a fee of 1000000007, and this fee in gwei.
\<close>

lemma rnd_ceiling200: "rnd (51310542629546669921875 / 4398046511104) = Num (3058346666666667 / 262144)"
  using rnd_at [of 33 "51310542629546669921875 / 4398046511104"] by (simp add: round_half_even_def Let_def)

lemma rnd_gasMultiplier: "rnd (6 / 5) = Num (5404319552844595 / 4503599627370496)"
  using rnd_at [of 0 "6 / 5"] by (simp add: round_half_even_def Let_def)

lemma rnd_gasLimit: "rnd (16888498602639359375 / 140737488355328) = Num (120000)"
  using rnd_at [of 16 "16888498602639359375 / 140737488355328"] by (simp add: round_half_even_def Let_def)

lemma rnd_bid: "rnd (5404319590674831869912165 / 4503599627370496) = Num (5033164835232153 / 4194304)"
  using rnd_at [of 30 "5404319590674831869912165 / 4503599627370496"] by (simp add: round_half_even_def Let_def)

lemma rnd_gwei: "rnd (1000000007 / 1000000000) = Num (4503599658895693 / 4503599627370496)"
  using rnd_at [of 0 "1000000007 / 1000000000"] by (simp add: round_half_even_def Let_def)

lemma rnd_gasMultiplier115: "rnd (23 / 20) = Num (2589569785738035 / 2251799813685248)"
  using rnd_at [of 0 "23 / 20"] by (simp add: round_half_even_def Let_def)

lemma rnd_gasLimit115: "rnd (8092405580431359375 / 70368744177664) = Num (7902739824639999 / 68719476736)"
  using rnd_at [of 16 "8092405580431359375 / 70368744177664"] by (simp add: round_half_even_def Let_def)

lemma gas_limit_is_floored:
  "math_floor (fmul (number_of_bigint 100000) (rnd (115 / 100))) = Num 114999
   \<and> math_floor (fmul (number_of_bigint 100000) (rnd (12 / 10))) = Num 120000"
  by (simp add: rnd_gasMultiplier115 rnd_gasLimit115 rnd_gasMultiplier rnd_gasLimit)

lemma example_ceilings:
  "calculateMaxGasPrice single_batches (example_flow ''0xcc'' 5 100) = Num 10000000000"
  "calculateMaxGasPrice single_batches (example_flow ''0xcc'' 7 200) = Num 11666666667"
  "calculateMaxGasPrice single_batches (example_flow ''0xee'' 5 100) = Num 10000000000"
  "calculateMaxGasPrice single_batches (example_flow ''0xee'' 7 200) = Num 11666666667"
  by (simp_all add: policy_defs example_defs single_batches_def rnd_sixth rnd_mult200
      rnd_ceiling200)

lemma single_batches_fields:
  "batchSize single_batches = Num 1" "gasMultiplier single_batches = rnd (12 / 10)"
  "isListed single_batches = True"
  "depositConsumedPctThreshold single_batches = Num 20"
  by (simp_all add: single_batches_def example_graphinator_def)

lemma example_lower:
  "toLowerCase ''0xAA'' = ''0xaa''" "toLowerCase ''0xbb'' = ''0xbb''"
  "toLowerCase ''0xCC'' = ''0xcc''" "toLowerCase ''0xee'' = ''0xee''"
  by code_simp+




lemma flaky_token:
  "processToken flaky_world single_batches ''0xcc''
     [GetSuperTokens True, LogProcessing 2 True]
   = (Returned (),
      [GetSuperTokens True, LogProcessing 2 True,
       GetFlowsToLiquidate ''0xcc'', LogFound 2, GetFeeData,
       LogCurrentGasPrice (Num (4503599658895693 / 4503599627370496)),
       LogInRange 2, LogSorted,
       EncodeFunctionData ''0xcc'' [(0, ''0x01'', ''0x02'')], GetAddress,
       EstimateGas ''0xb1'' ''deleteFlows'',
       LogErrorProcessingChunk (Error ''cannot estimate gas''),
       EncodeFunctionData ''0xcc'' [(0, ''0x01'', ''0x02'')], GetAddress,
       EstimateGas ''0xb1'' ''deleteFlows'', GetNetwork, GetTransactionCount ''0xc0'',
       SignTransaction \<lparr>tx_to = ''0xb1'', tx_data = ''deleteFlows'',
         tx_gasLimit = Num 120000, tx_gasPrice = Num 1200000008, tx_chainId = 8453,
         tx_nonce = 7\<rparr>,
       BroadcastTransaction ''signed'', WaitReceipt ''0xf00d'',
       LogSuccessful (Some ''0xf00d'')])"
  by (simp add: run_defs flaky_world_def example_world_def two_flows_def example_ceilings
      single_batches_fields example_flow_fields chunk_loop.simps rnd_gasMultiplier
      rnd_gasLimit rnd_bid rnd_gwei)



section \<open>Dry runs\<close>

lemma submit_dry_run:
  "dry_run w \<Longrightarrow> emits (\<lambda>e. \<not> signs_or_broadcasts e) (submit w g tok flows p)"
  by (auto simp: submit_def Let_def intro!: emits_intros)

lemma batchLiquidateFlows_dry_run:
  "dry_run w \<Longrightarrow>
   emits (\<lambda>e. \<not> signs_or_broadcasts e) (batchLiquidateFlows w g tok flows p)"
  by (auto simp: batchLiquidateFlows_def submit_dry_run intro!: emits_intros)

lemma liquidateChunks_dry_run:
  "dry_run w \<Longrightarrow>
   emits (\<lambda>e. \<not> signs_or_broadcasts e) (liquidateChunks w g tok flows cgp)"
  by (auto simp: liquidateChunks_def batchLiquidateFlows_dry_run split: option.split
      intro!: emits_intros)

lemma processToken_dry_run:
  "dry_run w \<Longrightarrow> emits (\<lambda>e. \<not> signs_or_broadcasts e) (processToken w g tok)"
  by (auto simp: processToken_def liquidateFlows_def Let_def liquidateChunks_dry_run
      intro!: emits_intros)

lemma processAll_dry_run:
  "dry_run w \<Longrightarrow> emits (\<lambda>e. \<not> signs_or_broadcasts e) (processAll w g t)"
  by (auto simp: processAll_def getSuperTokens_def processToken_dry_run split: option.split
      intro!: emits_intros)

lemma submit_dry_run_logged:
  "dry_run w \<Longrightarrow> fst (submit w g tok flows p h) = Returned () \<Longrightarrow>
   \<exists>evs t. snd (submit w g tok flows p h) = h @ evs @ [LogDryRun t] \<and> tx_gasPrice t = p"
  by (auto simp: submit_def bind_def generateBatchLiquidationTxData_def estimateGasLimit_def
      await_def throw_def ret_def emit_def Let_def split: sum.splits if_splits)

text \<open>
  Claim C8. When the dry-run mode is set, \<^verbatim>\<open>batchLiquidateFlows\<close> calls neither
  \<^verbatim>\<open>signTransaction\<close> nor \<^verbatim>\<open>broadcastTransaction\<close>, for any batch and in the whole
  run; where the request is assembled, the last thing the batch does is to log it.
\<close>

theorem dry_run_never_signs:
  "dry_run w \<Longrightarrow>
   emits (\<lambda>e. \<not> signs_or_broadcasts e) (batchLiquidateFlows w g tok flows p)
   \<and> emits (\<lambda>e. \<not> signs_or_broadcasts e) (processAll w g t)
   \<and> (fst (submit w g tok flows p h) = Returned () \<longrightarrow>
        (\<exists>evs x. snd (batchLiquidateFlows w g tok flows p h) = h @ evs @ [LogDryRun x]
           \<and> tx_gasPrice x = p))"
  using batchLiquidateFlows_dry_run [of w g tok flows p] processAll_dry_run [of w g t]
    submit_dry_run_logged [of w g tok flows p h]
    batchLiquidateFlows_submitted [of w g tok flows p h]
  by simp

lemma dry_submit:
  "submit dry_world example_graphinator ''0xcc'' (example_flows ''0xcc'') (Num 1200000008) []
   = (Returned (),
      [EncodeFunctionData ''0xcc'' [(0, ''0x01'', ''0x02'')], GetAddress,
       EstimateGas ''0xb1'' ''deleteFlows'', GetNetwork, GetTransactionCount ''0xc0'',
       LogDryRun \<lparr>tx_to = ''0xb1'', tx_data = ''deleteFlows'', tx_gasLimit = Num 120000,
         tx_gasPrice = Num 1200000008, tx_chainId = 8453, tx_nonce = 7\<rparr>])"
  by (simp add: run_defs dry_world_def example_world_def example_flows_def example_fields
      example_flow_fields rnd_gasMultiplier rnd_gasLimit)

theorem dry_run_never_signs_witness:
  "dry_run dry_world
   \<and> fst (submit dry_world example_graphinator ''0xcc'' (example_flows ''0xcc'')
        (Num 1200000008) []) = Returned ()
   \<and> emits (\<lambda>e. \<not> signs_or_broadcasts e)
        (batchLiquidateFlows dry_world example_graphinator ''0xcc'' (example_flows ''0xcc'')
           (Num 1200000008))
   \<and> emits (\<lambda>e. \<not> signs_or_broadcasts e) (processAll dry_world example_graphinator None)
   \<and> (\<exists>evs x. snd (batchLiquidateFlows dry_world example_graphinator ''0xcc''
          (example_flows ''0xcc'') (Num 1200000008) []) = [] @ evs @ [LogDryRun x]
        \<and> tx_gasPrice x = Num 1200000008)"
proof -
  have dry: "dry_run dry_world"
    by (simp add: dry_run_def dry_world_def example_world_def)
  have returned: "fst (submit dry_world example_graphinator ''0xcc'' (example_flows ''0xcc'')
      (Num 1200000008) []) = Returned ()"
    by (simp add: dry_submit)
  show ?thesis
    using dry_run_never_signs [OF dry, of example_graphinator "''0xcc''"
        "example_flows ''0xcc''" "Num 1200000008" None "[]"] dry returned
    by blast
qed

section \<open>The gas price of a batch\<close>

text \<open>
  Claim C9, as stated, fails: at a network fee of 1000000007 the request of the batch
  carries the gas price 1200000008. This is neither 1.2 times the fee, which is
  1200000008.4, nor the number that the program has for this product, which is a little
  below 1200000008.4.
\<close>

theorem bid_price_counterexample:
  "processToken dry_world example_graphinator ''0xcc'' []
     = (Returned (),
        [GetFlowsToLiquidate ''0xcc'', LogFound 1, GetFeeData,
         LogCurrentGasPrice (Num (4503599658895693 / 4503599627370496)), LogInRange 1,
         LogSorted,
         EncodeFunctionData ''0xcc'' [(0, ''0x01'', ''0x02'')], GetAddress,
         EstimateGas ''0xb1'' ''deleteFlows'', GetNetwork, GetTransactionCount ''0xc0'',
         LogDryRun \<lparr>tx_to = ''0xb1'', tx_data = ''deleteFlows'', tx_gasLimit = Num 120000,
           tx_gasPrice = Num 1200000008, tx_chainId = 8453, tx_nonce = 7\<rparr>])
   \<and> (1200000008 :: rat) \<noteq> 1000000007 * (12 / 10)
   \<and> Num 1200000008 \<noteq> fmul (Num 1000000007) (rnd (12 / 10))"
  by (simp add: run_defs dry_world_def example_world_def example_flows_def scenario_ceilings
      example_fields example_flow_fields chunk_loop.simps rnd_gasMultiplier rnd_gasLimit
      rnd_bid rnd_gwei)

lemma submit_bids: "emits (bids p) (submit w g tok flows p)"
  by (auto simp: submit_def Let_def bids_def intro!: emits_intros)

lemma liquidateChunks_bids:
  "emits (bids (math_floor (fmul cgp (rnd (12 / 10))))) (liquidateChunks w g tok flows cgp)"
  by (auto simp: liquidateChunks_def batchLiquidateFlows_def submit_bids bids_def
      split: option.split intro!: emits_intros)

lemma liquidateFlows_fee:
  "w_getFeeData w (h @ [LogFound (length flows)]) = Inr fee \<Longrightarrow>
   truthy (number_of_gasPrice fee) \<Longrightarrow>
   liquidateFlows w g tok flows h
     = liquidateChunks w g tok flows (number_of_gasPrice fee)
         (h @ [LogFound (length flows), GetFeeData])"
  by (simp add: liquidateFlows_def bind_def emit_def await_def Let_def)

text \<open>
  Claim C9, amended. The fee is fetched once for a token that has flows to liquidate;
  from then on the fee is not fetched again, and every transaction request that is signed
  or logged for the token carries the gas price \<open>\<lfloor>currentGasPrice * 1.2\<rfloor>\<close>, whatever the
  ceilings of the flows of the batch are.
\<close>

theorem bid_price:
  "emits (bids (math_floor (fmul cgp (rnd (12 / 10))))) (liquidateChunks w g tok flows cgp)
   \<and> (w_getFeeData w (h @ [LogFound (length flows)]) = Inr fee
        \<and> truthy (number_of_gasPrice fee) \<longrightarrow>
      liquidateFlows w g tok flows h
        = liquidateChunks w g tok flows (number_of_gasPrice fee)
            (h @ [LogFound (length flows), GetFeeData]))"
  using liquidateChunks_bids [of cgp w g tok flows] liquidateFlows_fee [of w h flows fee g tok]
  by simp

theorem bid_price_witness:
  "emits (bids (Num 1200000008))
     (liquidateChunks dry_world example_graphinator ''0xcc'' (example_flows ''0xcc'')
        (Num 1000000007))
   \<and> w_getFeeData dry_world [LogFound 1] = Inr (Some 1000000007)
   \<and> truthy (number_of_gasPrice (Some 1000000007))
   \<and> liquidateFlows dry_world example_graphinator ''0xcc'' (example_flows ''0xcc'') []
       = liquidateChunks dry_world example_graphinator ''0xcc'' (example_flows ''0xcc'')
           (Num 1000000007) [LogFound 1, GetFeeData]"
  using bid_price [of "Num 1000000007" dry_world example_graphinator "''0xcc''"
      "example_flows ''0xcc''" "[]" "Some 1000000007"]
  by (simp add: dry_world_def example_world_def example_flows_def number_of_gasPrice_def
      rnd_gasMultiplier rnd_bid)

section \<open>A run without a gas price\<close>

text \<open>
  Claim C1, as stated, fails: with two listed tokens and no gas price in the fee data,
  the run ends with the error at the first token, and the flows of the second token are
  never fetched.
\<close>

theorem no_gas_price_counterexample:
  "processAll no_fee_world example_graphinator None []
     = (Thrown (Error ''Current gas price not found''),
        [GetSuperTokens True, LogProcessing 2 True, GetFlowsToLiquidate ''0xaa'',
         LogFound 1, GetFeeData])
   \<and> GetFlowsToLiquidate ''0xbb''
       \<notin> set (snd (processAll no_fee_world example_graphinator None []))"
  by (simp add: run_defs no_fee_world_def example_world_def example_flows_def example_lower
      example_fields example_flow_fields)

text \<open>
  Claim C1, amended. If, at a token that has flows to liquidate, the fee data holds no
  gas price (null or 0), the loop over the tokens throws ``Current gas price not found''
  right after the fee lookup: nothing is submitted for this token, and none of the
  remaining tokens of the run is processed.
\<close>

theorem no_gas_price_aborts_run:
  assumes "w_getFlowsToLiquidate w h t (depositConsumedPctThreshold g)
             (calculateMaxGasPrice g) = Inr flows"
    and "flows \<noteq> []"
    and "w_getFeeData w (h @ [GetFlowsToLiquidate t, LogFound (length flows)]) = Inr fee"
    and "number_of_gasPrice fee = Num 0"
  shows "for_each (t # rest) (processToken w g) h
     = (Thrown (Error ''Current gas price not found''),
        h @ [GetFlowsToLiquidate t, LogFound (length flows), GetFeeData])"
  using assms
  by (simp add: processToken_def liquidateFlows_def bind_def await_def emit_def throw_def
      Let_def)

theorem no_gas_price_aborts_run_witness:
  "w_getFlowsToLiquidate no_fee_world [] ''0xaa''
       (depositConsumedPctThreshold example_graphinator)
       (calculateMaxGasPrice example_graphinator) = Inr (example_flows ''0xaa'')
   \<and> example_flows ''0xaa'' \<noteq> []
   \<and> w_getFeeData no_fee_world [GetFlowsToLiquidate ''0xaa'', LogFound 1] = Inr None
   \<and> number_of_gasPrice None = Num 0
   \<and> for_each [''0xaa'', ''0xbb''] (processToken no_fee_world example_graphinator) []
     = (Thrown (Error ''Current gas price not found''),
        [GetFlowsToLiquidate ''0xaa'', LogFound 1, GetFeeData])"
  using no_gas_price_aborts_run [of no_fee_world "[]" "''0xaa''" example_graphinator
      "example_flows ''0xaa''" None "[''0xbb'']"]
  by (simp add: no_fee_world_def example_world_def example_flows_def number_of_gasPrice_def)

end
